theory Spec2Isabelle
  imports Main "HOL-Library.Word"
begin

section \<open>The log filter engine of evmrpc/filter.go\<close>

text \<open>
  A shallow embedding of \<^verbatim>\<open>FilterAPI\<close> and \<^verbatim>\<open>LogFetcher\<close> (evmrpc/filter.go).
  Go's \<^verbatim>\<open>int64\<close> and \<^verbatim>\<open>uint64\<close> are 64-bit words: \<open>+\<close> wraps, \<open>\<le>s\<close> and \<open><s\<close>
  compare the signed reading, \<open><\<close> the unsigned one. A byte slice is a list of bytes; the
  fixed arrays \<^verbatim>\<open>common.Hash\<close> (32 bytes), \<^verbatim>\<open>common.Address\<close> (20 bytes) and
  \<^verbatim>\<open>ethtypes.Bloom\<close> (256 bytes) are byte lists too, compared by equality as Go compares
  arrays. \<^verbatim>\<open>*big.Int\<close> is an optional unbounded integer.
\<close>

subsection \<open>Data\<close>

type_synonym int64 = "64 word"
type_synonym uint64 = "64 word"
type_synonym byte = "8 word"
type_synonym Hash = "byte list"
type_synonym Address = "byte list"
type_synonym Bloom = "byte list"
type_synonym bloomIndexes = "nat list"

text \<open>
  Errors are values. The two errors made by the registry itself, an error handed back by a
  collaborator (block fetch, receipt lookup, event stream, JSON decoding), a run-time
  panic of the Go code (a slice too short for the array it is converted to), and the
  validation error with which a request is turned down where it is decoded, before any
  function of \<^verbatim>\<open>filter.go\<close> is entered.
\<close>

datatype error =
    ErrFilterDoesNotExist
  | ErrUnknownFilterType
  | ErrCollaborator string
  | RuntimePanic
  | ValidationError

text \<open>\<^verbatim>\<open>ethtypes.Log\<close>. \<^verbatim>\<open>Index\<close> and \<^verbatim>\<open>TxIndex\<close> are Go \<^verbatim>\<open>uint\<close>.\<close>

record Log =
  Address :: Address
  Topics :: "Hash list"
  Data :: "byte list"
  BlockNumber :: uint64
  TxHash :: Hash
  TxIndex :: nat
  BlockHash :: Hash
  Index :: nat
  Removed :: bool

text \<open>
  \<^verbatim>\<open>filters.FilterCriteria\<close>: the fields \<^verbatim>\<open>BlockHash\<close>, \<^verbatim>\<open>FromBlock\<close>, \<^verbatim>\<open>ToBlock\<close>,
  \<^verbatim>\<open>Addresses\<close>, \<^verbatim>\<open>Topics\<close>. The pointer fields are \<open>None\<close> when nil. (The prefix
  \<open>crit\<close> keeps the names apart from the fields of \<open>Log\<close>.)
\<close>

record FilterCriteria =
  critBlockHash :: "Hash option"
  FromBlock :: "int option"
  ToBlock :: "int option"
  Addresses :: "Address list"
  critTopics :: "Hash list list"

text \<open>
  What the code reads of a \<^verbatim>\<open>coretypes.ResultBlock\<close>: \<^verbatim>\<open>block.BlockID.Hash\<close> (a byte
  slice) and \<^verbatim>\<open>block.Block.Height\<close>.
\<close>

record ResultBlock =
  BlockID_Hash :: "byte list"
  Block_Height :: int64

text \<open>What the code reads of a \<^verbatim>\<open>types.Receipt\<close>: its \<^verbatim>\<open>LogsBloom\<close> bytes; the rest
  of the receipt is carried as the logs \<^verbatim>\<open>keeper.GetLogsForTx\<close> derives from it.\<close>

record Receipt =
  LogsBloom :: "byte list"
  ReceiptLogs :: "Log list"

text \<open>One answer of the event stream (\<^verbatim>\<open>coretypes.ResultEvents\<close>): the raw items, the
  flag \<^verbatim>\<open>More\<close> and the cursor \<^verbatim>\<open>Newest\<close>.\<close>

record ResultEvents =
  Items :: "string list"
  More :: bool
  Newest :: string

text \<open>
  The collaborators of one call, as the chain stands when the call is made. None of them
  is under the source files at hand, so each is a parameter:
  \<^item> \<open>BlockHeight\<close>: \<^verbatim>\<open>f.ctxProvider(LatestCtxHeight).BlockHeight()\<close>;
  \<^item> \<open>blockByHashWithRetry\<close>, \<open>blockWithRetry\<close>: the block fetches, which may fail;
  \<^item> \<open>GetBlockBloom\<close>, \<open>GetTxHashesOnHeight\<close>, \<open>GetReceipt\<close>, \<open>GetLogsForTx\<close>: the keeper;
    only \<open>GetReceipt\<close> has an error result;
  \<^item> \<open>EncodeFilters\<close>, \<open>MatchFilters\<close>: the bloom indexer and matcher;
  \<^item> \<open>getHeightFromBigIntBlockNumber\<close>: resolves a block number or tag against the latest
    height;
  \<^item> \<open>Events\<close>: \<^verbatim>\<open>tmClient.Events\<close> with the block query, as a function of the cursor
    \<^verbatim>\<open>After\<close>; \<open>decodeNewBlock\<close>: the two \<^verbatim>\<open>json.Unmarshal\<close> calls on an item and the
    hash of the decoded block.
\<close>

record Env =
  BlockHeight :: int64
  blockByHashWithRetry :: "Hash \<Rightarrow> error + ResultBlock"
  blockWithRetry :: "int64 \<Rightarrow> error + ResultBlock"
  GetBlockBloom :: "int64 \<Rightarrow> Bloom"
  GetTxHashesOnHeight :: "int64 \<Rightarrow> Hash list"
  GetReceipt :: "Hash \<Rightarrow> error + Receipt"
  GetLogsForTx :: "Receipt \<Rightarrow> Log list"
  EncodeFilters :: "Address list \<Rightarrow> Hash list list \<Rightarrow> bloomIndexes list list"
  MatchFilters :: "Bloom \<Rightarrow> bloomIndexes list list \<Rightarrow> bool"
  getHeightFromBigIntBlockNumber :: "int64 \<Rightarrow> int \<Rightarrow> int64"
  Events :: "string \<Rightarrow> error + ResultEvents"
  decodeNewBlock :: "string \<Rightarrow> error + Hash"

text \<open>
  A \<^verbatim>\<open>time.Timer\<close> on a clock of natural numbers: the instant it is set to fire at,
  whether it is still pending, and whether its channel \<^verbatim>\<open>C\<close> (buffer of one) holds a
  value. The runtime fires a pending timer once its instant has come; \<open>elapse\<close> brings a
  timer up to the instant \<open>now\<close> of an operation that looks at it.
\<close>

record Timer =
  expiry :: nat
  pending :: bool
  C :: bool

definition NewTimer :: "nat \<Rightarrow> nat \<Rightarrow> Timer" where
  "NewTimer now d = \<lparr>expiry = now + d, pending = True, C = False\<rparr>"

definition elapse :: "nat \<Rightarrow> Timer \<Rightarrow> Timer" where
  "elapse now t = (if pending t \<and> expiry t \<le> now then t\<lparr>pending := False, C := True\<rparr> else t)"

text \<open>\<^verbatim>\<open>t.Stop()\<close>: true when the call stops a pending timer, false when the timer has
  already fired or been stopped.\<close>

definition Stop :: "nat \<Rightarrow> Timer \<Rightarrow> bool \<times> Timer" where
  "Stop now t = (let t' = elapse now t in (pending t', t'\<lparr>pending := False\<rparr>))"

text \<open>\<^verbatim>\<open><-t.C\<close> on a stopped timer: takes the value if there is one, and blocks for ever
  (\<open>None\<close>) if there is none.\<close>

definition recvC :: "Timer \<Rightarrow> Timer option" where
  "recvC t = (if C t then Some (t\<lparr>C := False\<rparr>) else None)"

definition Reset :: "nat \<Rightarrow> nat \<Rightarrow> Timer \<Rightarrow> Timer" where
  "Reset now d t = t\<lparr>expiry := now + d, pending := True\<rparr>"

text \<open>The stop, drain, reset sequence at the head of \<^verbatim>\<open>GetFilterChanges\<close> and
  \<^verbatim>\<open>GetFilterLogs\<close> (lines 139-144 and 189-194).\<close>

definition rearm :: "nat \<Rightarrow> nat \<Rightarrow> Timer \<Rightarrow> Timer option" where
  "rearm now d t =
     (case Stop now t of
        (True, t1) \<Rightarrow> Some (Reset now d t1)
      | (False, t1) \<Rightarrow> (case recvC t1 of None \<Rightarrow> None | Some t2 \<Rightarrow> Some (Reset now d t2)))"

datatype FilterType = UnknownSubscription | LogsSubscription | BlocksSubscription

text \<open>
  The struct \<^verbatim>\<open>filter\<close>. Its \<^verbatim>\<open>deadline\<close> is a pointer to a timer that this filter alone
  owns; the model keeps the timer in the entry. The copy of the entry that
  \<^verbatim>\<open>GetFilterChanges\<close> reads from the map shares the pointer, so what the code does to the
  timer through the copy is done to the entry's timer.
\<close>

record filter_t =
  filterTyp :: FilterType
  fc :: FilterCriteria
  deadline :: Timer
  blockCursor :: string
  lastToHeight :: int64

text \<open>\<^verbatim>\<open>FilterAPI\<close>: the counter, the map and \<^verbatim>\<open>filterConfig.timeout\<close>. The mutex is
  held for the whole of every operation, so operations are atomic steps on this state.\<close>

record FilterAPI =
  nextFilterID :: uint64
  filters :: "uint64 \<rightharpoonup> filter_t"
  timeout :: nat

text \<open>The zero value of \<^verbatim>\<open>filters.FilterCriteria\<close>, which a block filter holds.\<close>

definition zeroCriteria :: FilterCriteria where
  "zeroCriteria =
     \<lparr>critBlockHash = None, FromBlock = None, ToBlock = None, Addresses = [], critTopics = []\<rparr>"

text \<open>The method \<^verbatim>\<open>Int64\<close> of \<^verbatim>\<open>big.Int\<close>: the low 64 bits, in two's complement.\<close>

definition Int64 :: "int \<Rightarrow> int64" where
  "Int64 x = word_of_int x"

text \<open>A Go conversion of a slice to an array of \<open>n\<close> elements: it panics (\<open>None\<close>) when
  the slice is shorter.\<close>

definition sliceToArray :: "nat \<Rightarrow> byte list \<Rightarrow> byte list option" where
  "sliceToArray n bs = (if length bs < n then None else Some (take n bs))"

subsection \<open>Exact match: IsLogExactMatch and matchTopics\<close>

text \<open>The loop over \<^verbatim>\<open>crit.Addresses\<close> of \<^verbatim>\<open>IsLogExactMatch\<close>; the third argument is
  the variable \<^verbatim>\<open>addrMatch\<close>.\<close>

fun addrLoop :: "Address \<Rightarrow> Address list \<Rightarrow> bool \<Rightarrow> bool" where
  "addrLoop a [] addrMatch = addrMatch"
| "addrLoop a (addrFilter # rest) addrMatch =
     (if a = addrFilter then True else addrLoop a rest addrMatch)"

text \<open>The inner loop of \<^verbatim>\<open>matchTopics\<close>; the third argument is \<^verbatim>\<open>matched\<close>.\<close>

fun topicLoop :: "Hash list \<Rightarrow> Hash \<Rightarrow> bool \<Rightarrow> bool" where
  "topicLoop [] t matched = matched"
| "topicLoop (topic # rest) t matched =
     (if topic = t then True else topicLoop rest t matched)"

text \<open>The outer loop of \<^verbatim>\<open>matchTopics\<close>, from position \<open>i\<close> on.\<close>

fun matchTopicsFrom :: "nat \<Rightarrow> Hash list list \<Rightarrow> Hash list \<Rightarrow> bool" where
  "matchTopicsFrom i [] eventTopics = True"
| "matchTopicsFrom i (topicList # rest) eventTopics =
     (if length topicList = 0 then matchTopicsFrom (Suc i) rest eventTopics
      else if i \<ge> length eventTopics then False
      else if \<not> topicLoop topicList (eventTopics ! i) False then False
      else matchTopicsFrom (Suc i) rest eventTopics)"

definition matchTopics :: "Hash list list \<Rightarrow> Hash list \<Rightarrow> bool" where
  "matchTopics topics eventTopics = matchTopicsFrom 0 topics eventTopics"

definition IsLogExactMatch :: "Log \<Rightarrow> FilterCriteria \<Rightarrow> bool" where
  "IsLogExactMatch log crit =
     (let addrMatch = addrLoop (Address log) (Addresses crit) (length (Addresses crit) = 0)
      in addrMatch \<and> matchTopics (critTopics crit) (Topics log))"

subsection \<open>LogFetcher\<close>

text \<open>
  The loop of \<^verbatim>\<open>FindLogsByBloom\<close> over the transaction hashes of a height. A receipt that
  cannot be fetched is logged and skipped (\<^verbatim>\<open>continue\<close>). \<^verbatim>\<open>ethtypes.Bloom(receipt.LogsBloom)\<close>
  converts a slice to an array of 256 bytes.
\<close>

fun FindLogsByBloomLoop ::
  "Env \<Rightarrow> bloomIndexes list list \<Rightarrow> Hash list \<Rightarrow> Log list \<Rightarrow> error + Log list" where
  "FindLogsByBloomLoop env fs [] res = Inr res"
| "FindLogsByBloomLoop env fs (hash # rest) res =
     (case GetReceipt env hash of
        Inl err \<Rightarrow> FindLogsByBloomLoop env fs rest res
      | Inr receipt \<Rightarrow>
          (case sliceToArray 256 (LogsBloom receipt) of
             None \<Rightarrow> Inl RuntimePanic
           | Some bloom \<Rightarrow>
               if MatchFilters env bloom fs
               then FindLogsByBloomLoop env fs rest (res @ GetLogsForTx env receipt)
               else FindLogsByBloomLoop env fs rest res))"

definition FindLogsByBloom :: "Env \<Rightarrow> int64 \<Rightarrow> bloomIndexes list list \<Rightarrow> error + Log list" where
  "FindLogsByBloom env height fs = FindLogsByBloomLoop env fs (GetTxHashesOnHeight env height) []"

text \<open>
  The loop of \<^verbatim>\<open>GetLogsForBlock\<close> over the matched logs, from index \<open>i\<close> on:
  \<^verbatim>\<open>l.BlockHash = common.Hash(block.BlockID.Hash); l.Index = uint(i)\<close>. The conversion to
  the 32-byte array is made in each round.
\<close>

fun renumber :: "byte list \<Rightarrow> nat \<Rightarrow> Log list \<Rightarrow> error + Log list" where
  "renumber bh i [] = Inr []"
| "renumber bh i (l # ls) =
     (case sliceToArray 32 bh of
        None \<Rightarrow> Inl RuntimePanic
      | Some h \<Rightarrow>
          (case renumber bh (Suc i) ls of
             Inl e \<Rightarrow> Inl e
           | Inr ls' \<Rightarrow> Inr (l\<lparr>BlockHash := h, Index := i\<rparr> # ls')))"

text \<open>\<^verbatim>\<open>utils.Filter\<close> keeps the elements that satisfy the predicate, in order. The
  logs are values here: \<^verbatim>\<open>keeper.GetLogsForTx\<close> makes new log objects from the receipt on
  every call, so the assignments of the loop touch no log but the ones returned.\<close>

definition GetLogsForBlock ::
  "Env \<Rightarrow> ResultBlock \<Rightarrow> FilterCriteria \<Rightarrow> bloomIndexes list list \<Rightarrow> error + Log list" where
  "GetLogsForBlock env block crit fs =
     (case FindLogsByBloom env (Block_Height block) fs of
        Inl e \<Rightarrow> Inl e
      | Inr possibleLogs \<Rightarrow>
          (let matchedLogs = filter (\<lambda>l. IsLogExactMatch l crit) possibleLogs
           in renumber (BlockID_Hash block) 0 matchedLogs))"

text \<open>
  The loop of \<^verbatim>\<open>FindBlockesByBloom\<close>: \<^verbatim>\<open>for height := begin; height <= end; height++\<close>
  on \<^verbatim>\<open>int64\<close>. With \<open>end = 2^63 - 1\<close> the condition never fails and the loop does not
  return: the result is \<open>None\<close>.
\<close>

partial_function (option) FindBlockesByBloomLoop ::
  "Env \<Rightarrow> int64 \<Rightarrow> int64 \<Rightarrow> bloomIndexes list list \<Rightarrow> int64 list \<Rightarrow> int64 list option" where
  "FindBlockesByBloomLoop env height end' fs res =
     (if height \<le>s end'
      then FindBlockesByBloomLoop env (height + 1) end' fs
             (if MatchFilters env (GetBlockBloom env height) fs then res @ [height] else res)
      else Some res)"

definition FindBlockesByBloom ::
  "Env \<Rightarrow> int64 \<Rightarrow> int64 \<Rightarrow> bloomIndexes list list \<Rightarrow> int64 list option" where
  "FindBlockesByBloom env begin end' fs = FindBlockesByBloomLoop env begin end' fs []"

text \<open>The loop of \<^verbatim>\<open>GetLogsByFilters\<close> over the candidate heights (lines 294-301); the
  last argument is \<^verbatim>\<open>res\<close>.\<close>

fun scanBlocks ::
  "Env \<Rightarrow> FilterCriteria \<Rightarrow> bloomIndexes list list \<Rightarrow> int64 list \<Rightarrow> Log list \<Rightarrow> error + Log list" where
  "scanBlocks env crit fs [] res = Inr res"
| "scanBlocks env crit fs (height # rest) res =
     (case blockWithRetry env height of
        Inl err \<Rightarrow> Inl err
      | Inr block \<Rightarrow>
          (case GetLogsForBlock env block crit fs of
             Inl e \<Rightarrow> Inl e
           | Inr logs \<Rightarrow> scanBlocks env crit fs rest (res @ logs)))"

text \<open>The bounds of the range scan (lines 281-291): \<open>(begin, end)\<close>.\<close>

definition scanRange :: "Env \<Rightarrow> FilterCriteria \<Rightarrow> int64 \<Rightarrow> int64 \<times> int64" where
  "scanRange env crit lastTo =
     (let latest = BlockHeight env;
          begin0 = (case FromBlock crit of
                      None \<Rightarrow> 0
                    | Some n \<Rightarrow> getHeightFromBigIntBlockNumber env latest n);
          end' = (case ToBlock crit of
                    None \<Rightarrow> latest
                  | Some n \<Rightarrow> getHeightFromBigIntBlockNumber env latest n);
          begin = (if begin0 <s lastTo then lastTo else begin0)
      in (begin, end'))"

text \<open>\<^verbatim>\<open>GetLogsByFilters\<close>: \<open>None\<close> when the scan does not return, \<open>Some (Inl err)\<close> for
  \<^verbatim>\<open>(nil, 0, err)\<close>, \<open>Some (Inr (logs, h))\<close> for \<^verbatim>\<open>(logs, h, nil)\<close>.\<close>

definition GetLogsByFilters ::
  "Env \<Rightarrow> FilterCriteria \<Rightarrow> int64 \<Rightarrow> (error + Log list \<times> int64) option" where
  "GetLogsByFilters env crit lastTo =
     (let bloomIndexes = EncodeFilters env (Addresses crit) (critTopics crit) in
      case critBlockHash crit of
        Some bh \<Rightarrow>
          (case blockByHashWithRetry env bh of
             Inl err \<Rightarrow> Some (Inl err)
           | Inr block \<Rightarrow>
               (case GetLogsForBlock env block crit bloomIndexes of
                  Inl e \<Rightarrow> Some (Inl e)
                | Inr logs \<Rightarrow> Some (Inr (logs, Block_Height block))))
      | None \<Rightarrow>
          (case scanRange env crit lastTo of
             (begin, end') \<Rightarrow>
               (case FindBlockesByBloom env begin end' bloomIndexes of
                  None \<Rightarrow> None
                | Some blockHeights \<Rightarrow>
                    (case scanBlocks env crit bloomIndexes blockHeights [] of
                       Inl err \<Rightarrow> Some (Inl err)
                     | Inr res \<Rightarrow> Some (Inr (res, end'))))))"

subsection \<open>FilterAPI\<close>

definition NewFilterAPI :: "nat \<Rightarrow> FilterAPI" where
  "NewFilterAPI d = \<lparr>nextFilterID = 1, filters = Map.empty, timeout = d\<rparr>"

text \<open>
  One round of \<^verbatim>\<open>timeoutLoop\<close> after a tick, at the instant \<open>now\<close>: every filter whose
  timer has a value on its channel is deleted, the others stay as they are.
\<close>

definition timeoutLoopRound :: "nat \<Rightarrow> FilterAPI \<Rightarrow> FilterAPI" where
  "timeoutLoopRound now a =
     a\<lparr>filters := (\<lambda>id. case filters a id of
                            None \<Rightarrow> None
                          | Some f \<Rightarrow> if C (elapse now (deadline f)) then None else Some f)\<rparr>"

text \<open>\<^verbatim>\<open>NewFilter\<close> and \<^verbatim>\<open>NewBlockFilter\<close> return \<^verbatim>\<open>(&curFilterID, nil)\<close>: the error
  is always nil.\<close>

definition NewFilter :: "nat \<Rightarrow> FilterCriteria \<Rightarrow> FilterAPI \<Rightarrow> (error + uint64) \<times> FilterAPI" where
  "NewFilter now crit a =
     (let curFilterID = nextFilterID a;
          a1 = a\<lparr>nextFilterID := nextFilterID a + 1\<rparr>;
          a2 = a1\<lparr>filters := (filters a1)(curFilterID \<mapsto>
                  \<lparr>filterTyp = LogsSubscription, fc = crit,
                   deadline = NewTimer now (timeout a1), blockCursor = [],
                   lastToHeight = 0\<rparr>)\<rparr>
      in (Inr curFilterID, a2))"

definition NewBlockFilter :: "nat \<Rightarrow> FilterAPI \<Rightarrow> (error + uint64) \<times> FilterAPI" where
  "NewBlockFilter now a =
     (let curFilterID = nextFilterID a;
          a1 = a\<lparr>nextFilterID := nextFilterID a + 1\<rparr>;
          a2 = a1\<lparr>filters := (filters a1)(curFilterID \<mapsto>
                  \<lparr>filterTyp = BlocksSubscription, fc = zeroCriteria,
                   deadline = NewTimer now (timeout a1), blockCursor = [],
                   lastToHeight = 0\<rparr>)\<rparr>
      in (Inr curFilterID, a2))"

text \<open>The loop over \<^verbatim>\<open>res.Items\<close> of \<^verbatim>\<open>getBlockHeadersAfter\<close>.\<close>

fun decodeItems :: "Env \<Rightarrow> string list \<Rightarrow> Hash list \<Rightarrow> error + Hash list" where
  "decodeItems env [] headers = Inr headers"
| "decodeItems env (item # rest) headers =
     (case decodeNewBlock env item of
        Inl err \<Rightarrow> Inl err
      | Inr h \<Rightarrow> decodeItems env rest (headers @ [h]))"

text \<open>The loop \<^verbatim>\<open>for hasMore\<close> of \<^verbatim>\<open>getBlockHeadersAfter\<close>; it runs for as long as the
  stream answers \<^verbatim>\<open>More\<close>, so it need not return.\<close>

partial_function (option) getBlockHeadersAfterLoop ::
  "Env \<Rightarrow> string \<Rightarrow> Hash list \<Rightarrow> (error + Hash list \<times> string) option" where
  "getBlockHeadersAfterLoop env cursor headers =
     (case Events env cursor of
        Inl err \<Rightarrow> Some (Inl err)
      | Inr res \<Rightarrow>
          (case decodeItems env (Items res) headers of
             Inl err \<Rightarrow> Some (Inl err)
           | Inr headers' \<Rightarrow>
               if More res then getBlockHeadersAfterLoop env (Newest res) headers'
               else Some (Inr (headers', Newest res))))"

definition getBlockHeadersAfter :: "Env \<Rightarrow> string \<Rightarrow> (error + Hash list \<times> string) option" where
  "getBlockHeadersAfter env cursor = getBlockHeadersAfterLoop env cursor []"

text \<open>What \<^verbatim>\<open>GetFilterChanges\<close> returns as \<^verbatim>\<open>interface{}\<close>: nil, block hashes, or logs.\<close>

datatype changes = NilChanges | HashChanges "Hash list" | LogChanges "Log list"

text \<open>
  \<^verbatim>\<open>GetFilterChanges\<close> at the instant \<open>now\<close>. \<open>None\<close>: the call does not return.
  \<open>filter0\<close> is the local copy \<^verbatim>\<open>filter\<close> read from the map, from which the code takes the
  type, the criteria and the cursors. The entry with the re-armed timer is \<open>filter1\<close>;
  \<^verbatim>\<open>a.filters[filterID]\<close> read again at lines 152 and 169 is this entry, the lock being
  held throughout.
\<close>

definition GetFilterChanges ::
  "nat \<Rightarrow> Env \<Rightarrow> uint64 \<Rightarrow> FilterAPI \<Rightarrow> ((error + changes) \<times> FilterAPI) option" where
  "GetFilterChanges now env filterID a =
     (case filters a filterID of
        None \<Rightarrow> Some (Inl ErrFilterDoesNotExist, a)
      | Some filter0 \<Rightarrow>
          (case rearm now (timeout a) (deadline filter0) of
             None \<Rightarrow> None
           | Some t \<Rightarrow>
               (let filter1 = filter0\<lparr>deadline := t\<rparr>;
                    a1 = a\<lparr>filters := (filters a)(filterID \<mapsto> filter1)\<rparr>
                in case filterTyp filter0 of
                     BlocksSubscription \<Rightarrow>
                       (case getBlockHeadersAfter env (blockCursor filter0) of
                          None \<Rightarrow> None
                        | Some (Inl err) \<Rightarrow> Some (Inl err, a1)
                        | Some (Inr (hashes, cursor)) \<Rightarrow>
                            (let updatedFilter = filter1\<lparr>blockCursor := cursor\<rparr>
                             in Some (Inr (HashChanges hashes),
                                      a1\<lparr>filters := (filters a1)(filterID \<mapsto> updatedFilter)\<rparr>)))
                   | LogsSubscription \<Rightarrow>
                       if critBlockHash (fc filter0) \<noteq> None \<and> 0 <s lastToHeight filter0
                       then Some (Inr NilChanges, a1)
                       else if (case ToBlock (fc filter0) of
                                  None \<Rightarrow> False
                                | Some n \<Rightarrow> Int64 n \<le>s lastToHeight filter0)
                       then Some (Inr NilChanges, a1)
                       else
                         (case GetLogsByFilters env (fc filter0) (lastToHeight filter0) of
                            None \<Rightarrow> None
                          | Some (Inl err) \<Rightarrow> Some (Inl err, a1)
                          | Some (Inr (logs, lastTo)) \<Rightarrow>
                              (let updatedFilter = filter1\<lparr>lastToHeight := lastTo + 1\<rparr>
                               in Some (Inr (LogChanges logs),
                                        a1\<lparr>filters := (filters a1)(filterID \<mapsto> updatedFilter)\<rparr>)))
                   | UnknownSubscription \<Rightarrow> Some (Inl ErrUnknownFilterType, a1))))"

definition GetFilterLogs ::
  "nat \<Rightarrow> Env \<Rightarrow> uint64 \<Rightarrow> FilterAPI \<Rightarrow> ((error + Log list) \<times> FilterAPI) option" where
  "GetFilterLogs now env filterID a =
     (case filters a filterID of
        None \<Rightarrow> Some (Inl ErrFilterDoesNotExist, a)
      | Some filter0 \<Rightarrow>
          (case rearm now (timeout a) (deadline filter0) of
             None \<Rightarrow> None
           | Some t \<Rightarrow>
               (let filter1 = filter0\<lparr>deadline := t\<rparr>;
                    a1 = a\<lparr>filters := (filters a)(filterID \<mapsto> filter1)\<rparr>
                in case GetLogsByFilters env (fc filter0) 0 of
                     None \<Rightarrow> None
                   | Some (Inl err) \<Rightarrow> Some (Inl err, a1)
                   | Some (Inr (logs, lastTo)) \<Rightarrow>
                       (let updatedFilter = filter1\<lparr>lastToHeight := lastTo\<rparr>
                        in Some (Inr logs,
                                 a1\<lparr>filters := (filters a1)(filterID \<mapsto> updatedFilter)\<rparr>)))))"

definition GetLogs :: "Env \<Rightarrow> FilterCriteria \<Rightarrow> (error + Log list) option" where
  "GetLogs env crit =
     (case GetLogsByFilters env crit 0 of
        None \<Rightarrow> None
      | Some (Inl err) \<Rightarrow> Some (Inl err)
      | Some (Inr (logs, lastTo)) \<Rightarrow> Some (Inr logs))"

definition UninstallFilter :: "uint64 \<Rightarrow> FilterAPI \<Rightarrow> bool \<times> FilterAPI" where
  "UninstallFilter filterID a =
     (case filters a filterID of
        None \<Rightarrow> (False, a)
      | Some found \<Rightarrow> (True, a\<lparr>filters := (filters a)(filterID := None)\<rparr>))"

subsection \<open>The operation newFilter at the JSON-RPC boundary\<close>

text \<open>
  Modelled from the spec: the validation of the criteria of a \<^verbatim>\<open>newFilter\<close> request.
  It is made where the request is decoded into a \<^verbatim>\<open>filters.FilterCriteria\<close>, before
  \<^verbatim>\<open>NewFilter\<close> is entered, by a decoder that is not in \<^verbatim>\<open>filter.go\<close>; the test
  \<^verbatim>\<open>TestFilterNew\<close> observes it through the JSON-RPC server. The spec gives the criteria
  an optional block hash that is "mutually exclusive with fromBlock/toBlock - supplying
  both is an error", and says of the validation that it "occurs before entering the
  registry - a boundary concern".
\<close>

definition validateCriteria :: "FilterCriteria \<Rightarrow> error + FilterCriteria" where
  "validateCriteria crit =
     (if critBlockHash crit \<noteq> None \<and> (FromBlock crit \<noteq> None \<or> ToBlock crit \<noteq> None)
      then Inl ValidationError
      else Inr crit)"

text \<open>
  Modelled from the spec: the operation \<^verbatim>\<open>newFilter\<close> as a client reaches it. Criteria
  that do not pass the validation give a validation error, which is "surfaced immediately
  at creation/query time; filter is never registered"; criteria that pass are handed to
  \<^verbatim>\<open>NewFilter\<close> of \<^verbatim>\<open>filter.go\<close>.
\<close>

definition newFilter :: "nat \<Rightarrow> FilterCriteria \<Rightarrow> FilterAPI \<Rightarrow> (error + uint64) \<times> FilterAPI" where
  "newFilter now crit a =
     (case validateCriteria crit of
        Inl err \<Rightarrow> (Inl err, a)
      | Inr valid \<Rightarrow> NewFilter now valid a)"

subsection \<open>Sequences of calls\<close>

text \<open>
  A client's call on the registry, or one round of the timeout loop. A sequence of calls is
  a list of calls, each with the instant it is made at and the chain as it stands then.
  \<open>step\<close> gives the filter IDs the call hands out (none or one) and the registry after it;
  \<open>run\<close> collects the IDs handed out along a sequence, in order. Both are \<open>None\<close> when a
  call does not return.
\<close>

datatype call =
    CallNewFilter FilterCriteria
  | CallNewBlockFilter
  | CallGetFilterChanges uint64
  | CallGetFilterLogs uint64
  | CallUninstallFilter uint64
  | CallTimeoutLoopRound

fun issued :: "(error + uint64) \<times> FilterAPI \<Rightarrow> (uint64 list \<times> FilterAPI) option" where
  "issued (Inr filterID, a) = Some ([filterID], a)"
| "issued (Inl err, a) = Some ([], a)"

fun step :: "nat \<times> Env \<times> call \<Rightarrow> FilterAPI \<Rightarrow> (uint64 list \<times> FilterAPI) option" where
  "step (now, env, CallNewFilter crit) a = issued (NewFilter now crit a)"
| "step (now, env, CallNewBlockFilter) a = issued (NewBlockFilter now a)"
| "step (now, env, CallGetFilterChanges filterID) a =
     (case GetFilterChanges now env filterID a of None \<Rightarrow> None | Some (r, a') \<Rightarrow> Some ([], a'))"
| "step (now, env, CallGetFilterLogs filterID) a =
     (case GetFilterLogs now env filterID a of None \<Rightarrow> None | Some (r, a') \<Rightarrow> Some ([], a'))"
| "step (now, env, CallUninstallFilter filterID) a = Some ([], snd (UninstallFilter filterID a))"
| "step (now, env, CallTimeoutLoopRound) a = Some ([], timeoutLoopRound now a)"

fun run :: "(nat \<times> Env \<times> call) list \<Rightarrow> FilterAPI \<Rightarrow> (uint64 list \<times> FilterAPI) option" where
  "run [] a = Some ([], a)"
| "run (c # cs) a =
     (case step c a of
        None \<Rightarrow> None
      | Some (ids, a') \<Rightarrow>
          (case run cs a' of
             None \<Rightarrow> None
           | Some (ids', a'') \<Rightarrow> Some (ids @ ids', a'')))"

subsection \<open>A small chain for worked examples\<close>

text \<open>
  A chain on which the definitions can be run: every height has a block whose hash is 32
  copies of the low byte of the height and which holds one transaction; every transaction
  has a receipt with one log, stored with a stale \<open>Index\<close> of 7 and no block hash; every
  bloom matches; a negative block number is a tag for the latest height. Fetching a block
  by hash fails, and the event stream is empty.
\<close>

definition exampleLog :: "Hash \<Rightarrow> Log" where
  "exampleLog txh =
     \<lparr>Address = replicate 20 1, Topics = [replicate 32 2], Data = [], BlockNumber = 0,
      TxHash = txh, TxIndex = 0, BlockHash = [], Index = 7, Removed = False\<rparr>"

definition exampleBlock :: "int64 \<Rightarrow> ResultBlock" where
  "exampleBlock h = \<lparr>BlockID_Hash = replicate 32 (ucast h), Block_Height = h\<rparr>"

definition exampleEnv :: "int64 \<Rightarrow> Env" where
  "exampleEnv latest =
     \<lparr>BlockHeight = latest,
      blockByHashWithRetry = (\<lambda>bh. Inl (ErrCollaborator ''block not found'')),
      blockWithRetry = (\<lambda>h. Inr (exampleBlock h)),
      GetBlockBloom = (\<lambda>h. replicate 256 0),
      GetTxHashesOnHeight = (\<lambda>h. [replicate 32 (ucast h)]),
      GetReceipt = (\<lambda>txh. Inr \<lparr>LogsBloom = replicate 256 0, ReceiptLogs = [exampleLog txh]\<rparr>),
      GetLogsForTx = ReceiptLogs,
      EncodeFilters = (\<lambda>addrs topics. []),
      MatchFilters = (\<lambda>bloom fs. True),
      getHeightFromBigIntBlockNumber = (\<lambda>latest n. if n < 0 then latest else Int64 n),
      Events = (\<lambda>cursor. Inr \<lparr>Items = [], More = False, Newest = cursor\<rparr>),
      decodeNewBlock = (\<lambda>item. Inl (ErrCollaborator ''bad item''))\<rparr>"

text \<open>The example log as \<^verbatim>\<open>GetLogsForBlock\<close> hands it out for the block at height
  \<open>h\<close>: with the block's hash, and index 0.\<close>

definition exampleDelivered :: "int64 \<Rightarrow> Log" where
  "exampleDelivered h =
     (exampleLog (replicate 32 (ucast h)))\<lparr>BlockHash := replicate 32 (ucast h), Index := 0\<rparr>"

text \<open>The same chain with every block fetch by height failing.\<close>

definition brokenBlocksEnv :: "int64 \<Rightarrow> Env" where
  "brokenBlocksEnv latest =
     (exampleEnv latest)\<lparr>blockWithRetry := (\<lambda>h. Inl (ErrCollaborator ''block unavailable''))\<rparr>"

text \<open>The same chain with two transactions at every height, the receipt of the first of
  which (32 bytes of 255) cannot be fetched.\<close>

definition lostReceiptEnv :: "int64 \<Rightarrow> Env" where
  "lostReceiptEnv latest =
     (exampleEnv latest)
       \<lparr>GetTxHashesOnHeight := (\<lambda>h. [replicate 32 255, replicate 32 (ucast h)]),
        GetReceipt := (\<lambda>txh. if txh = replicate 32 255
                              then Inl (ErrCollaborator ''receipt not found'')
                              else Inr \<lparr>LogsBloom = replicate 256 0,
                                       ReceiptLogs = [exampleLog txh]\<rparr>)\<rparr>"

text \<open>Criteria with no bound at all, criteria that give both a block hash and a
  block range, and the criteria of the happy path of \<^verbatim>\<open>TestFilterNew\<close>: the block range
  from 1 to 2, the address \<^verbatim>\<open>0x123\<close> and the topic \<^verbatim>\<open>0x456\<close>.\<close>

definition happyPathCriteria :: FilterCriteria where
  "happyPathCriteria =
     \<lparr>critBlockHash = None, FromBlock = Some 1, ToBlock = Some 2,
      Addresses = [replicate 18 0 @ [1, 35]], critTopics = [[replicate 30 0 @ [4, 86]]]\<rparr>"

definition openCriteria :: FilterCriteria where
  "openCriteria = zeroCriteria"

definition hashAndRangeCriteria :: FilterCriteria where
  "hashAndRangeCriteria =
     \<lparr>critBlockHash = Some (replicate 32 171), FromBlock = Some 1, ToBlock = Some 2,
      Addresses = [], critTopics = []\<rparr>"

text \<open>A registry with timeout 10 that holds one logs filter, with ID 1 and the open
  criteria, whose timer was armed at the instant \<open>armedAt\<close> and whose cursor is \<open>cursor\<close>.
  With both at 0 it is the registry right after the first \<^verbatim>\<open>NewFilter\<close>.\<close>

definition exampleState :: "nat \<Rightarrow> int64 \<Rightarrow> FilterAPI" where
  "exampleState armedAt cursor =
     \<lparr>nextFilterID = 2,
      filters = [1 \<mapsto> \<lparr>filterTyp = LogsSubscription, fc = openCriteria,
                         deadline = NewTimer armedAt 10, blockCursor = [],
                         lastToHeight = cursor\<rparr>],
      timeout = 10\<rparr>"

text \<open>A registry with timeout 10 that holds one block filter, with ID 1, and the example
  chain with an event stream that fails.\<close>

definition exampleBlockState :: "nat \<Rightarrow> string \<Rightarrow> FilterAPI" where
  "exampleBlockState armedAt cursor =
     \<lparr>nextFilterID = 2,
      filters = [1 \<mapsto> \<lparr>filterTyp = BlocksSubscription, fc = zeroCriteria,
                         deadline = NewTimer armedAt 10, blockCursor = cursor,
                         lastToHeight = 0\<rparr>],
      timeout = 10\<rparr>"

definition brokenStreamEnv :: Env where
  "brokenStreamEnv = (exampleEnv 3)\<lparr>Events := (\<lambda>cursor. Inl (ErrCollaborator ''stream closed''))\<rparr>"

section \<open>Exact match\<close>

lemma addrLoop_iff: "addrLoop a xs m \<longleftrightarrow> m \<or> a \<in> set xs"
  by (induction xs) auto

lemma topicLoop_iff: "topicLoop xs t m \<longleftrightarrow> m \<or> t \<in> set xs"
  by (induction xs) auto

lemma matchTopicsFrom_iff:
  "matchTopicsFrom k ts ev \<longleftrightarrow>
     (\<forall>i<length ts. ts ! i \<noteq> [] \<longrightarrow> k + i < length ev \<and> ev ! (k + i) \<in> set (ts ! i))"
proof (induction ts arbitrary: k)
  case Nil
  show ?case by simp
next
  case (Cons t ts)
  have split: "(\<forall>i<length (t # ts). P i) \<longleftrightarrow> P 0 \<and> (\<forall>i<length ts. P (Suc i))" for P
    by (simp add: All_less_Suc2)
  show ?case
    by (subst split) (simp add: Cons.IH topicLoop_iff)
qed

text \<open>
  C5. \<open>IsLogExactMatch log crit\<close> is true exactly when the address list of the criteria is
  empty or holds the log's address, and every topic position of the criteria whose list
  of accepted values is not empty is a position the log has, with the log's topic there
  among the accepted values. A position with an empty list accepts every log; a non-empty
  position beyond the log's topics fails the match.
\<close>

theorem IsLogExactMatch_iff:
  "IsLogExactMatch log crit \<longleftrightarrow>
     (Addresses crit = [] \<or> Address log \<in> set (Addresses crit)) \<and>
     (\<forall>i<length (critTopics crit). critTopics crit ! i \<noteq> [] \<longrightarrow>
        i < length (Topics log) \<and> Topics log ! i \<in> set (critTopics crit ! i))"
  by (simp add: IsLogExactMatch_def matchTopics_def addrLoop_iff matchTopicsFrom_iff)

text \<open>On the example log (one topic): an address among two and a wildcard at position 0
  match; a value required at position 1, which the log does not have, does not.\<close>

theorem IsLogExactMatch_iff_witness:
  "IsLogExactMatch (exampleLog [])
     \<lparr>critBlockHash = None, FromBlock = None, ToBlock = None,
      Addresses = [replicate 20 3, replicate 20 1], critTopics = [[]]\<rparr>
   \<and> IsLogExactMatch (exampleLog [])
     \<lparr>critBlockHash = None, FromBlock = None, ToBlock = None,
      Addresses = [], critTopics = [[replicate 32 5, replicate 32 2]]\<rparr>
   \<and> \<not> IsLogExactMatch (exampleLog [])
     \<lparr>critBlockHash = None, FromBlock = None, ToBlock = None,
      Addresses = [], critTopics = [[], [replicate 32 2]]\<rparr>"
  using IsLogExactMatch_iff [of "exampleLog []"
      "\<lparr>critBlockHash = None, FromBlock = None, ToBlock = None,
        Addresses = [replicate 20 3, replicate 20 1], critTopics = [[]]\<rparr>"]
    IsLogExactMatch_iff [of "exampleLog []"
      "\<lparr>critBlockHash = None, FromBlock = None, ToBlock = None,
        Addresses = [], critTopics = [[replicate 32 5, replicate 32 2]]\<rparr>"]
    IsLogExactMatch_iff [of "exampleLog []"
      "\<lparr>critBlockHash = None, FromBlock = None, ToBlock = None,
        Addresses = [], critTopics = [[], [replicate 32 2]]\<rparr>"]
  by (simp add: exampleLog_def All_less_Suc Ex_less_Suc)

section \<open>The bloom scan over heights\<close>

lemma sint_succ64:
  fixes h :: "64 word"
  assumes "sint h < 2 ^ 63 - 1"
  shows "sint (h + 1) = sint h + 1"
proof -
  have lo: "- (2 ^ 63) \<le> sint h" using sint_ge [of h] by simp
  have "sint (h + 1) = signed_take_bit 63 (sint h + 1)"
    by (simp add: sint_word_add)
  also have "\<dots> = sint h + 1"
    using lo assms by (simp add: signed_take_bit_int_eq_self)
  finally show ?thesis .
qed


lemma FindBlockesByBloomLoop_closed:
  assumes "sint e < 2 ^ 63 - 1"
  shows "FindBlockesByBloomLoop env h e fs res =
         Some (res @ filter (\<lambda>x. MatchFilters env (GetBlockBloom env x) fs)
                       (map word_of_int [sint h..sint e]))"
proof (induction "nat (sint e + 1 - sint h)" arbitrary: h res)
  case 0
  then have "\<not> h \<le>s e" by (simp add: word_sle_eq)
  moreover from 0 have "[sint h..sint e] = []" by simp
  ultimately show ?case
    by (subst FindBlockesByBloomLoop.simps) simp
next
  case (Suc n)
  then have le: "h \<le>s e" by (simp add: word_sle_eq)
  then have lt: "sint h < 2 ^ 63 - 1" using assms by (simp add: word_sle_eq)
  have s: "sint (h + 1) = sint h + 1" by (rule sint_succ64 [OF lt])
  have n: "n = nat (sint e + 1 - sint (h + 1))" using Suc(2) s by simp
  have up: "[sint h..sint e] = sint h # [sint (h + 1)..sint e]"
    using le by (simp add: word_sle_eq s upto_rec1)
  show ?case
    by (subst FindBlockesByBloomLoop.simps) (simp add: le Suc(1) [OF n] up)
qed

lemma FindBlockesByBloomLoop_returns:
  assumes "FindBlockesByBloomLoop env h e fs res = Some hs"
  shows "sint e < 2 ^ 63 - 1"
proof (rule ccontr)
  assume "\<not> sint e < 2 ^ 63 - 1"
  then have top: "x \<le>s e" for x :: "64 word"
    using sint_lt [of x] by (simp add: word_sle_eq)
  have "\<not> (\<forall>x :: 64 word. x \<le>s e)"
    using assms
    by (rule FindBlockesByBloomLoop.raw_induct
          [where P = "\<lambda>_ _ e _ _ _. \<not> (\<forall>x :: 64 word. x \<le>s e)", rotated])
       (auto split: if_splits)
  with top show False by blast
qed

lemma FindBlockesByBloom_closed:
  assumes "sint e < 2 ^ 63 - 1"
  shows "FindBlockesByBloom env b e fs =
         Some (filter (\<lambda>x. MatchFilters env (GetBlockBloom env x) fs)
                 (map word_of_int [sint b..sint e]))"
  by (simp add: FindBlockesByBloom_def FindBlockesByBloomLoop_closed [OF assms])

lemma FindBlockesByBloom_returns:
  "FindBlockesByBloom env b e fs = Some hs \<Longrightarrow> sint e < 2 ^ 63 - 1"
  unfolding FindBlockesByBloom_def by (rule FindBlockesByBloomLoop_returns)




section \<open>The example chain, evaluated\<close>

lemma exampleEnv_sel:
  "BlockHeight (exampleEnv l) = l"
  "blockByHashWithRetry (exampleEnv l) bh = Inl (ErrCollaborator ''block not found'')"
  "blockWithRetry (exampleEnv l) h = Inr (exampleBlock h)"
  "GetTxHashesOnHeight (exampleEnv l) h = [replicate 32 (ucast h)]"
  "GetReceipt (exampleEnv l) txh = Inr \<lparr>LogsBloom = replicate 256 0, ReceiptLogs = [exampleLog txh]\<rparr>"
  "GetLogsForTx (exampleEnv l) = ReceiptLogs"
  "EncodeFilters (exampleEnv l) addrs topics = []"
  "MatchFilters (exampleEnv l) bloom fs = True"
  "getHeightFromBigIntBlockNumber (exampleEnv l) latest n = (if n < 0 then latest else Int64 n)"
  "Events (exampleEnv l) cursor = Inr \<lparr>Items = [], More = False, Newest = cursor\<rparr>"
  by (simp_all add: exampleEnv_def)

lemma brokenBlocksEnv_sel:
  "BlockHeight (brokenBlocksEnv l) = l"
  "blockWithRetry (brokenBlocksEnv l) h = Inl (ErrCollaborator ''block unavailable'')"
  "EncodeFilters (brokenBlocksEnv l) addrs topics = []"
  "MatchFilters (brokenBlocksEnv l) bloom fs = True"
  by (simp_all add: brokenBlocksEnv_def exampleEnv_def)

lemma lostReceiptEnv_sel:
  "BlockHeight (lostReceiptEnv l) = l"
  "blockWithRetry (lostReceiptEnv l) h = Inr (exampleBlock h)"
  "GetTxHashesOnHeight (lostReceiptEnv l) h = [replicate 32 255, replicate 32 (ucast h)]"
  "GetReceipt (lostReceiptEnv l) (replicate 32 255) = Inl (ErrCollaborator ''receipt not found'')"
  "GetReceipt (lostReceiptEnv l) (replicate 32 1)
     = Inr \<lparr>LogsBloom = replicate 256 0, ReceiptLogs = [exampleLog (replicate 32 1)]\<rparr>"
  "GetLogsForTx (lostReceiptEnv l) = ReceiptLogs"
  "EncodeFilters (lostReceiptEnv l) addrs topics = []"
  "MatchFilters (lostReceiptEnv l) bloom fs = True"
  by (simp_all add: lostReceiptEnv_def exampleEnv_def)

lemma example_matches_open: "IsLogExactMatch (exampleLog txh) openCriteria"
  by (simp add: IsLogExactMatch_def matchTopics_def openCriteria_def zeroCriteria_def)

lemma example_GetLogsForBlock:
  "GetLogsForBlock (exampleEnv l) (exampleBlock h) openCriteria fs = Inr [exampleDelivered h]"
  by (simp add: GetLogsForBlock_def FindLogsByBloom_def exampleEnv_sel exampleBlock_def
      sliceToArray_def example_matches_open exampleDelivered_def)

lemma example_scanBlocks:
  "scanBlocks (exampleEnv l) openCriteria fs hs res = Inr (res @ map exampleDelivered hs)"
  by (induction hs arbitrary: res) (simp_all add: exampleEnv_sel example_GetLogsForBlock)

lemma example_FindBlockesByBloom:
  "sint e < 2 ^ 63 - 1 \<Longrightarrow>
   FindBlockesByBloom (exampleEnv l) b e fs = Some (map word_of_int [sint b..sint e])"
  by (simp add: FindBlockesByBloom_closed exampleEnv_sel)

lemma example_GetLogsByFilters:
  assumes "sint l < 2 ^ 63 - 1"
  shows "GetLogsByFilters (exampleEnv l) openCriteria lastTo =
         Some (Inr (map exampleDelivered
                      (map word_of_int [sint (if 0 <s lastTo then lastTo else 0)..sint l]), l))"
  using assms
  by (simp add: GetLogsByFilters_def scanRange_def openCriteria_def [unfolded zeroCriteria_def]
      exampleEnv_sel example_FindBlockesByBloom
      example_scanBlocks [unfolded openCriteria_def zeroCriteria_def])

section \<open>Order of the scan\<close>

lemma GetLogsByFilters_range_Inr:
  assumes "critBlockHash crit = None"
      and "GetLogsByFilters env crit lastTo = Some (Inr (logs, E))"
  shows "E = snd (scanRange env crit lastTo)"
    and "\<exists>hs. FindBlockesByBloom env (fst (scanRange env crit lastTo)) E
                (EncodeFilters env (Addresses crit) (critTopics crit)) = Some hs
              \<and> scanBlocks env crit (EncodeFilters env (Addresses crit) (critTopics crit)) hs []
                  = Inr logs"
  using assms
  by (auto simp: GetLogsByFilters_def Let_def split: prod.splits option.splits sum.splits)




section \<open>Block hash and index of the returned logs\<close>

lemma renumber_Inr:
  assumes "renumber bh i ls = Inr out"
  shows "length out = length ls
         \<and> (\<forall>k<length ls. sliceToArray 32 bh = Some (BlockHash (out ! k))
                \<and> Index (out ! k) = i + k
                \<and> out ! k = (ls ! k)\<lparr>BlockHash := BlockHash (out ! k), Index := i + k\<rparr>)"
  using assms
proof (induction ls arbitrary: i out)
  case Nil
  then show ?case by simp
next
  case (Cons l ls)
  from Cons.prems obtain h out' where
    h: "sliceToArray 32 bh = Some h" and
    r: "renumber bh (Suc i) ls = Inr out'" and
    o: "out = l\<lparr>BlockHash := h, Index := i\<rparr> # out'"
    by (auto split: option.splits sum.splits)
  from Cons.IH [OF r] have len: "length out' = length ls" and
    ih: "\<And>k. k < length ls \<Longrightarrow> sliceToArray 32 bh = Some (BlockHash (out' ! k))
                \<and> Index (out' ! k) = Suc i + k
                \<and> out' ! k = (ls ! k)\<lparr>BlockHash := BlockHash (out' ! k), Index := Suc i + k\<rparr>"
    by auto
  show ?case
  proof (intro conjI allI impI)
    show "length out = length (l # ls)" by (simp add: o len)
  next
    fix k assume k: "k < length (l # ls)"
    show "sliceToArray 32 bh = Some (BlockHash (out ! k))"
      using k h ih by (cases k) (simp_all add: o)
    show "Index (out ! k) = i + k"
      using k ih by (cases k) (simp_all add: o)
    show "out ! k = ((l # ls) ! k)\<lparr>BlockHash := BlockHash (out ! k), Index := i + k\<rparr>"
      using k ih by (cases k) (simp_all add: o)
  qed
qed

text \<open>
  C9. When \<open>GetLogsForBlock\<close> returns a list, it is the list of the possible logs of the
  block that match exactly, in order, and the log at position \<open>i\<close> (from 0) has its
  \<open>BlockHash\<close> set to the hash of the block passed in (as the 32-byte array) and its
  \<open>Index\<close> set to \<open>i\<close>, whatever the receipt stored; the other fields are as stored.
\<close>

theorem GetLogsForBlock_renumbers:
  assumes "GetLogsForBlock env block crit fs = Inr logs"
  shows "\<exists>possibleLogs.
           FindLogsByBloom env (Block_Height block) fs = Inr possibleLogs
         \<and> length logs = length (filter (\<lambda>l. IsLogExactMatch l crit) possibleLogs)
         \<and> (\<forall>i<length logs.
                sliceToArray 32 (BlockID_Hash block) = Some (BlockHash (logs ! i))
              \<and> Index (logs ! i) = i
              \<and> logs ! i = (filter (\<lambda>l. IsLogExactMatch l crit) possibleLogs ! i)
                             \<lparr>BlockHash := BlockHash (logs ! i), Index := i\<rparr>)"
proof -
  from assms obtain possibleLogs where
    p: "FindLogsByBloom env (Block_Height block) fs = Inr possibleLogs" and
    r: "renumber (BlockID_Hash block) 0 (filter (\<lambda>l. IsLogExactMatch l crit) possibleLogs)
          = Inr logs"
    by (auto simp: GetLogsForBlock_def split: sum.splits)
  from renumber_Inr [OF r] p show ?thesis by auto
qed

text \<open>A block of the example chain with two transactions: both logs were stored with
  index 7 and come back with the block's hash and the indices 0 and 1.\<close>

theorem GetLogsForBlock_renumbers_witness:
  "GetLogsForBlock
     ((exampleEnv 2)\<lparr>GetTxHashesOnHeight := (\<lambda>h. [replicate 32 8, replicate 32 9])\<rparr>)
     (exampleBlock 1) openCriteria []
   = Inr [(exampleLog (replicate 32 8))\<lparr>BlockHash := replicate 32 1, Index := 0\<rparr>,
          (exampleLog (replicate 32 9))\<lparr>BlockHash := replicate 32 1, Index := 1\<rparr>]
   \<and> Index (exampleLog (replicate 32 9)) = 7
   \<and> sliceToArray 32 (BlockID_Hash (exampleBlock 1)) = Some (replicate 32 1)
   \<and> Index ([(exampleLog (replicate 32 8))\<lparr>BlockHash := replicate 32 1, Index := 0\<rparr>,
              (exampleLog (replicate 32 9))\<lparr>BlockHash := replicate 32 1, Index := 1\<rparr>] ! 1) = 1"
proof -
  have g: "GetLogsForBlock
     ((exampleEnv 2)\<lparr>GetTxHashesOnHeight := (\<lambda>h. [replicate 32 8, replicate 32 9])\<rparr>)
     (exampleBlock 1) openCriteria []
   = Inr [(exampleLog (replicate 32 8))\<lparr>BlockHash := replicate 32 1, Index := 0\<rparr>,
          (exampleLog (replicate 32 9))\<lparr>BlockHash := replicate 32 1, Index := 1\<rparr>]"
    by (simp add: GetLogsForBlock_def FindLogsByBloom_def exampleEnv_sel exampleBlock_def
        sliceToArray_def example_matches_open)
  have s: "sliceToArray 32 (BlockID_Hash (exampleBlock 1)) = Some (replicate 32 1)"
    by (simp add: sliceToArray_def exampleBlock_def)
  have i: "Index ([(exampleLog (replicate 32 8))\<lparr>BlockHash := replicate 32 1, Index := 0\<rparr>,
              (exampleLog (replicate 32 9))\<lparr>BlockHash := replicate 32 1, Index := 1\<rparr>] ! 1) = 1"
    using GetLogsForBlock_renumbers [OF g] by auto
  have "Index (exampleLog (replicate 32 9)) = 7" by (simp add: exampleLog_def)
  with g s i show ?thesis by blast
qed

section \<open>Fetch failures during a scan\<close>

lemma scanBlocks_append:
  "scanBlocks env crit fs (hs @ hs') res =
     (case scanBlocks env crit fs hs res of
        Inl e \<Rightarrow> Inl e
      | Inr res' \<Rightarrow> scanBlocks env crit fs hs' res')"
  by (induction hs arbitrary: res) (simp_all split: sum.splits)

lemma GetLogsForBlock_Inl:
  assumes "GetLogsForBlock env block crit fs = Inl e"
  shows "e = RuntimePanic"
proof -
  have "FindLogsByBloomLoop env fs txs r = Inl e' \<Longrightarrow> e' = RuntimePanic" for txs r e'
    by (induction txs arbitrary: r) (auto split: sum.splits option.splits if_splits)
  moreover have "renumber bh i ls = Inl e' \<Longrightarrow> e' = RuntimePanic" for bh i ls e'
    by (induction ls arbitrary: i) (auto split: sum.splits option.splits)
  ultimately show ?thesis
    using assms by (auto simp: GetLogsForBlock_def FindLogsByBloom_def split: sum.splits)
qed

lemma scanBlocks_failed_fetch:
  assumes "h \<in> set hs" "blockWithRetry env h = Inl err"
  shows "\<exists>pre h' post e.
           hs = pre @ h' # post
         \<and> (\<forall>x\<in>set pre. \<exists>block logs. blockWithRetry env x = Inr block
                              \<and> GetLogsForBlock env block crit fs = Inr logs)
         \<and> scanBlocks env crit fs hs res = Inl e
         \<and> (blockWithRetry env h' = Inl e
              \<or> (e = RuntimePanic
                  \<and> (\<exists>block. blockWithRetry env h' = Inr block
                              \<and> GetLogsForBlock env block crit fs = Inl RuntimePanic)))"
  using assms
proof (induction hs arbitrary: res)
  case Nil
  then show ?case by simp
next
  case (Cons x hs)
  show ?case
  proof (cases "blockWithRetry env x")
    case (Inl e)
    then show ?thesis
      by (intro exI [of _ "[]"] exI [of _ x] exI [of _ hs] exI [of _ e]) simp
  next
    case (Inr block)
    with Cons.prems have hin: "h \<in> set hs" by auto
    show ?thesis
    proof (cases "GetLogsForBlock env block crit fs")
      case (Inl e)
      with GetLogsForBlock_Inl [OF Inl] Inr show ?thesis
        by (intro exI [of _ "[]"] exI [of _ x] exI [of _ hs] exI [of _ RuntimePanic]) simp
    next
      case logs: (Inr logs)
      from Cons.IH [OF hin Cons.prems(2), of "res @ logs"] obtain pre h' post e where
        ih: "hs = pre @ h' # post"
          "\<forall>x\<in>set pre. \<exists>block logs. blockWithRetry env x = Inr block
                              \<and> GetLogsForBlock env block crit fs = Inr logs"
          "scanBlocks env crit fs hs (res @ logs) = Inl e"
          "blockWithRetry env h' = Inl e
              \<or> (e = RuntimePanic
                  \<and> (\<exists>block. blockWithRetry env h' = Inr block
                              \<and> GetLogsForBlock env block crit fs = Inl RuntimePanic))"
        by blast
      from ih Inr logs show ?thesis
        by (intro exI [of _ "x # pre"] exI [of _ h'] exI [of _ post] exI [of _ e]) simp
    qed
  qed
qed

lemma rearm_pending:
  assumes "pending t"
  shows "\<exists>t'. rearm now d t = Some t' \<and> expiry t' = now + d \<and> pending t' \<and> (\<not> C t \<longrightarrow> \<not> C t')"
  using assms
  by (cases "expiry t \<le> now") (simp_all add: rearm_def Stop_def elapse_def recvC_def Reset_def)

lemma rearm_Some:
  assumes "rearm now d t = Some t'"
  shows "expiry t' = now + d \<and> pending t'"
  using assms
  by (auto simp: rearm_def Stop_def elapse_def recvC_def Reset_def Let_def
      split: if_splits option.splits bool.splits prod.splits)

text \<open>
  C1 (as amended). A block fetch that fails aborts the scan: \<open>GetLogsByFilters\<close> returns
  the error of \<open>blockByHashWithRetry\<close> when the criteria name a block hash. In a range
  scan in which the fetch of some candidate height fails, it returns an error and no logs,
  and the error is that of the first candidate height that stops the scan: the candidates
  before it were all fetched and gave their logs, and at it either the block fetch failed,
  and the error returned is the error of this fetch, or the block was fetched and
  \<open>GetLogsForBlock\<close> panicked on it. \<open>GetLogs\<close>, \<open>GetFilterLogs\<close> and \<open>GetFilterChanges\<close> hand
  the error on. A receipt that cannot be fetched inside \<open>FindLogsByBloom\<close> does not abort
  anything: the transaction is skipped and the loop goes on with the next hash. A bloom
  lookup has no error result.
\<close>

theorem fetch_failures:
  "(\<forall>bh err. critBlockHash crit = Some bh \<longrightarrow> blockByHashWithRetry env bh = Inl err \<longrightarrow>
       GetLogsByFilters env crit lastTo = Some (Inl err))
   \<and> (\<forall>hs h err. critBlockHash crit = None \<longrightarrow>
         FindBlockesByBloom env (fst (scanRange env crit lastTo)) (snd (scanRange env crit lastTo))
           (EncodeFilters env (Addresses crit) (critTopics crit)) = Some hs \<longrightarrow>
         h \<in> set hs \<longrightarrow> blockWithRetry env h = Inl err \<longrightarrow>
         (\<exists>pre h' post e.
             hs = pre @ h' # post
           \<and> (\<forall>x\<in>set pre. \<exists>block logs. blockWithRetry env x = Inr block
                  \<and> GetLogsForBlock env block crit
                       (EncodeFilters env (Addresses crit) (critTopics crit)) = Inr logs)
           \<and> GetLogsByFilters env crit lastTo = Some (Inl e)
           \<and> (blockWithRetry env h' = Inl e
                \<or> (e = RuntimePanic
                    \<and> (\<exists>block. blockWithRetry env h' = Inr block
                          \<and> GetLogsForBlock env block crit
                               (EncodeFilters env (Addresses crit) (critTopics crit))
                             = Inl RuntimePanic)))))
   \<and> (\<forall>e. GetLogsByFilters env crit 0 = Some (Inl e) \<longrightarrow> GetLogs env crit = Some (Inl e))
   \<and> (\<forall>e f. filters a filterID = Some f \<longrightarrow> fc f = crit \<longrightarrow> pending (deadline f) \<longrightarrow>
         GetLogsByFilters env crit 0 = Some (Inl e) \<longrightarrow>
         (\<exists>a'. GetFilterLogs now env filterID a = Some (Inl e, a')))
   \<and> (\<forall>e f. filters a filterID = Some f \<longrightarrow> fc f = crit \<longrightarrow> pending (deadline f) \<longrightarrow>
         filterTyp f = LogsSubscription \<longrightarrow>
         (critBlockHash crit = None \<or> lastToHeight f \<le>s 0) \<longrightarrow>
         (\<forall>n. ToBlock crit = Some n \<longrightarrow> lastToHeight f <s Int64 n) \<longrightarrow>
         GetLogsByFilters env crit (lastToHeight f) = Some (Inl e) \<longrightarrow>
         (\<exists>a'. GetFilterChanges now env filterID a = Some (Inl e, a')))
   \<and> (\<forall>txh err rest res. GetReceipt env txh = Inl err \<longrightarrow>
         FindLogsByBloomLoop env fs (txh # rest) res = FindLogsByBloomLoop env fs rest res)"
proof (intro conjI allI impI)
  fix bh err
  assume "critBlockHash crit = Some bh" "blockByHashWithRetry env bh = Inl err"
  then show "GetLogsByFilters env crit lastTo = Some (Inl err)"
    by (simp add: GetLogsByFilters_def)
next
  fix hs h err
  assume n: "critBlockHash crit = None"
    and hs: "FindBlockesByBloom env (fst (scanRange env crit lastTo))
               (snd (scanRange env crit lastTo))
               (EncodeFilters env (Addresses crit) (critTopics crit)) = Some hs"
    and h: "h \<in> set hs" "blockWithRetry env h = Inl err"
  let ?fs = "EncodeFilters env (Addresses crit) (critTopics crit)"
  from scanBlocks_failed_fetch [OF h, of crit ?fs "[]"]
  obtain pre h' post e where
    s: "hs = pre @ h' # post"
      "\<forall>x\<in>set pre. \<exists>block logs. blockWithRetry env x = Inr block
                              \<and> GetLogsForBlock env block crit ?fs = Inr logs"
      "scanBlocks env crit ?fs hs [] = Inl e"
      "blockWithRetry env h' = Inl e
         \<or> (e = RuntimePanic
             \<and> (\<exists>block. blockWithRetry env h' = Inr block
                         \<and> GetLogsForBlock env block crit ?fs = Inl RuntimePanic))"
    by blast
  from n hs s(3) have "GetLogsByFilters env crit lastTo = Some (Inl e)"
    by (auto simp: GetLogsByFilters_def Let_def split: prod.splits)
  with s(1,2,4) show "\<exists>pre h' post e.
             hs = pre @ h' # post
           \<and> (\<forall>x\<in>set pre. \<exists>block logs. blockWithRetry env x = Inr block
                  \<and> GetLogsForBlock env block crit ?fs = Inr logs)
           \<and> GetLogsByFilters env crit lastTo = Some (Inl e)
           \<and> (blockWithRetry env h' = Inl e
                \<or> (e = RuntimePanic
                    \<and> (\<exists>block. blockWithRetry env h' = Inr block
                          \<and> GetLogsForBlock env block crit ?fs = Inl RuntimePanic)))"
    by blast
next
  fix e assume "GetLogsByFilters env crit 0 = Some (Inl e)"
  then show "GetLogs env crit = Some (Inl e)" by (simp add: GetLogs_def)
next
  fix e f
  assume f: "filters a filterID = Some f" "fc f = crit" "pending (deadline f)"
    and g: "GetLogsByFilters env crit 0 = Some (Inl e)"
  from rearm_pending [OF f(3), of now "timeout a"] obtain t' where
    "rearm now (timeout a) (deadline f) = Some t'" by blast
  with f g show "\<exists>a'. GetFilterLogs now env filterID a = Some (Inl e, a')"
    by (simp add: GetFilterLogs_def)
next
  fix e f
  assume f: "filters a filterID = Some f" "fc f = crit" "pending (deadline f)"
      "filterTyp f = LogsSubscription"
    and guards: "critBlockHash crit = None \<or> lastToHeight f \<le>s 0"
      "\<forall>n. ToBlock crit = Some n \<longrightarrow> lastToHeight f <s Int64 n"
    and g: "GetLogsByFilters env crit (lastToHeight f) = Some (Inl e)"
  from rearm_pending [OF f(3), of now "timeout a"] obtain t' where
    t': "rearm now (timeout a) (deadline f) = Some t'" by blast
  from guards(1) have g1: "\<not> (critBlockHash crit \<noteq> None \<and> 0 <s lastToHeight f)"
    by auto
  from guards(2) have g2: "\<not> (case ToBlock crit of None \<Rightarrow> False
                                | Some n \<Rightarrow> Int64 n \<le>s lastToHeight f)"
    by (auto split: option.splits)
  show "\<exists>a'. GetFilterChanges now env filterID a = Some (Inl e, a')"
    using f t' g g1 g2 by (auto simp: GetFilterChanges_def Let_def)
next
  fix txh err rest res
  assume "GetReceipt env txh = Inl err"
  then show "FindLogsByBloomLoop env fs (txh # rest) res = FindLogsByBloomLoop env fs rest res"
    by simp
qed


text \<open>On the example chain: with block fetches failing, a scan of height 1 returns the
  fetch error, from \<open>GetLogsByFilters\<close> and from \<open>GetFilterLogs\<close> on a filter just created;
  when only the block of height 1 cannot be fetched, a scan of the heights 0 and 1 returns
  the error of that fetch and none of the logs of height 0; a block hash that cannot be
  fetched gives its error; a lost receipt is skipped.\<close>

theorem fetch_failures_witness:
  "GetLogsByFilters (brokenBlocksEnv 1) openCriteria 1
     = Some (Inl (ErrCollaborator ''block unavailable''))
   \<and> GetLogsByFilters
        ((exampleEnv 1)\<lparr>blockWithRetry :=
            (\<lambda>h. if h = 1 then Inl (ErrCollaborator ''block 1 unavailable'')
                  else Inr (exampleBlock h))\<rparr>) openCriteria 0
     = Some (Inl (ErrCollaborator ''block 1 unavailable''))
   \<and> map_option fst
        (GetFilterLogs 5 (brokenBlocksEnv 1) 1 (snd (NewFilter 0 openCriteria (NewFilterAPI 10))))
     = Some (Inl (ErrCollaborator ''block unavailable''))
   \<and> GetLogsByFilters (exampleEnv 1) hashAndRangeCriteria 0
     = Some (Inl (ErrCollaborator ''block not found''))
   \<and> FindLogsByBloomLoop (lostReceiptEnv 1) [] [replicate 32 255, replicate 32 1] []
     = Inr [exampleLog (replicate 32 1)]"
proof -
  have c: "critBlockHash openCriteria = None" "Addresses openCriteria = []"
      "critTopics openCriteria = []" "FromBlock openCriteria = None" "ToBlock openCriteria = None"
    by (simp_all add: openCriteria_def zeroCriteria_def)
  have r: "scanRange (brokenBlocksEnv 1) openCriteria 1 = (1, 1)"
    "scanRange (brokenBlocksEnv 1) openCriteria 0 = (0, 1)"
    by (simp_all add: scanRange_def c brokenBlocksEnv_sel word_sless_alt)
  have hs: "FindBlockesByBloom (brokenBlocksEnv 1) 1 1 [] = Some [1]"
    "FindBlockesByBloom (brokenBlocksEnv 1) 0 1 [] = Some [0, 1]"
    by (simp_all add: FindBlockesByBloom_closed brokenBlocksEnv_sel upto_rec1)
  note T = fetch_failures [where env = "brokenBlocksEnv 1" and crit = openCriteria
      and a = "snd (NewFilter 0 openCriteria (NewFilterAPI 10))" and filterID = 1 and now = 5]
  have g1: "GetLogsByFilters (brokenBlocksEnv 1) openCriteria 1
     = Some (Inl (ErrCollaborator ''block unavailable''))"
    by (simp add: GetLogsByFilters_def c r hs brokenBlocksEnv_sel)
  have g0: "GetLogsByFilters (brokenBlocksEnv 1) openCriteria 0
     = Some (Inl (ErrCollaborator ''block unavailable''))"
    by (simp add: GetLogsByFilters_def c r hs brokenBlocksEnv_sel)
  have f: "filters (snd (NewFilter 0 openCriteria (NewFilterAPI 10))) 1
     = Some \<lparr>filterTyp = LogsSubscription, fc = openCriteria, deadline = NewTimer 0 10,
             blockCursor = [], lastToHeight = 0\<rparr>"
    by (simp add: NewFilter_def NewFilterAPI_def)
  have "\<exists>a'. GetFilterLogs 5 (brokenBlocksEnv 1) 1
                (snd (NewFilter 0 openCriteria (NewFilterAPI 10)))
              = Some (Inl (ErrCollaborator ''block unavailable''), a')"
    using T [where lastTo = 0] f g0 by (simp add: NewTimer_def)
  then have g2: "map_option fst
        (GetFilterLogs 5 (brokenBlocksEnv 1) 1 (snd (NewFilter 0 openCriteria (NewFilterAPI 10))))
     = Some (Inl (ErrCollaborator ''block unavailable''))"
    by auto
  have g3: "GetLogsByFilters (exampleEnv 1) hashAndRangeCriteria 0
     = Some (Inl (ErrCollaborator ''block not found''))"
    by (simp add: GetLogsByFilters_def hashAndRangeCriteria_def exampleEnv_sel)
  have g4: "FindLogsByBloomLoop (lostReceiptEnv 1) [] [replicate 32 255, replicate 32 1] []
     = Inr [exampleLog (replicate 32 1)]"
    by (simp add: lostReceiptEnv_sel sliceToArray_def)
  have hs5: "FindBlockesByBloom
        ((exampleEnv 1)\<lparr>blockWithRetry :=
            (\<lambda>h. if h = 1 then Inl (ErrCollaborator ''block 1 unavailable'')
                  else Inr (exampleBlock h))\<rparr>) 0 1 [] = Some [0, 1]"
    by (simp add: FindBlockesByBloom_closed exampleEnv_sel upto_rec1)
  have g5: "GetLogsByFilters
        ((exampleEnv 1)\<lparr>blockWithRetry :=
            (\<lambda>h. if h = 1 then Inl (ErrCollaborator ''block 1 unavailable'')
                  else Inr (exampleBlock h))\<rparr>) openCriteria 0
     = Some (Inl (ErrCollaborator ''block 1 unavailable''))"
    by (simp add: GetLogsByFilters_def scanRange_def c exampleEnv_sel hs5 word_sless_alt
        GetLogsForBlock_def FindLogsByBloom_def exampleBlock_def sliceToArray_def
        example_matches_open)
  from g1 g2 g3 g4 g5 show ?thesis by blast
qed

text \<open>
  C1 as stated fails: on the chain with a lost receipt, the receipt of a transaction of
  height 1 cannot be fetched, and \<open>GetLogsByFilters\<close> still returns without an error, with
  the log of the other transaction of that height.
\<close>

theorem receipt_failure_counterexample:
  "GetReceipt (lostReceiptEnv 1) (replicate 32 255) = Inl (ErrCollaborator ''receipt not found'')
   \<and> replicate 32 255 \<in> set (GetTxHashesOnHeight (lostReceiptEnv 1) 1)
   \<and> GetLogsByFilters (lostReceiptEnv 1) openCriteria 1 = Some (Inr ([exampleDelivered 1], 1))"
proof -
  have c: "critBlockHash openCriteria = None" "Addresses openCriteria = []"
      "critTopics openCriteria = []" "FromBlock openCriteria = None" "ToBlock openCriteria = None"
    by (simp_all add: openCriteria_def zeroCriteria_def)
  have hs: "FindBlockesByBloom (lostReceiptEnv 1) 1 1 [] = Some [1]"
    by (simp add: FindBlockesByBloom_closed lostReceiptEnv_sel upto_rec1)
  have b: "GetLogsForBlock (lostReceiptEnv 1) (exampleBlock 1) openCriteria []
             = Inr [exampleDelivered 1]"
    by (simp add: GetLogsForBlock_def FindLogsByBloom_def lostReceiptEnv_sel exampleBlock_def
        sliceToArray_def example_matches_open exampleDelivered_def)
  have "GetLogsByFilters (lostReceiptEnv 1) openCriteria 1 = Some (Inr ([exampleDelivered 1], 1))"
    by (simp add: GetLogsByFilters_def scanRange_def c lostReceiptEnv_sel hs b word_sless_alt)
  then show ?thesis by (simp add: lostReceiptEnv_sel)
qed

section \<open>Creating filters\<close>

lemma NewFilter_registers:
  "NewFilter now crit a =
     (Inr (nextFilterID a),
      a\<lparr>nextFilterID := nextFilterID a + 1,
        filters := (filters a)(nextFilterID a \<mapsto>
          \<lparr>filterTyp = LogsSubscription, fc = crit, deadline = NewTimer now (timeout a),
           blockCursor = [], lastToHeight = 0\<rparr>)\<rparr>)"
  by (simp add: NewFilter_def Let_def)

text \<open>
  C7. \<open>NewFilter\<close> of \<^verbatim>\<open>filter.go\<close> has no error path of its own: the criteria are
  validated where the request is decoded, so the claim is settled on the operation
  \<open>newFilter\<close>, validation followed by \<open>NewFilter\<close>. A \<open>newFilter\<close> request whose
  criteria hold a block hash together with a \<open>FromBlock\<close> or a \<open>ToBlock\<close> is answered
  with the validation error: no filter ID is handed out and the registry after the call is
  the registry before it, with the same filters, the same timers and the same
  \<open>nextFilterID\<close>. Every other request reaches \<open>NewFilter\<close>, which returns the current
  \<open>nextFilterID\<close>, stores a logs filter with the criteria of the request under it and
  increments the counter.
\<close>

theorem newFilter_rejects_hash_and_range:
  "(critBlockHash crit \<noteq> None \<and> (FromBlock crit \<noteq> None \<or> ToBlock crit \<noteq> None) \<longrightarrow>
      newFilter now crit a = (Inl ValidationError, a)
    \<and> issued (newFilter now crit a) = Some ([], a))
   \<and> (critBlockHash crit = None \<or> (FromBlock crit = None \<and> ToBlock crit = None) \<longrightarrow>
      newFilter now crit a = NewFilter now crit a
    \<and> fst (newFilter now crit a) = Inr (nextFilterID a)
    \<and> filters (snd (newFilter now crit a)) (nextFilterID a)
        = Some \<lparr>filterTyp = LogsSubscription, fc = crit, deadline = NewTimer now (timeout a),
                 blockCursor = [], lastToHeight = 0\<rparr>
    \<and> nextFilterID (snd (newFilter now crit a)) = nextFilterID a + 1)"
proof (intro conjI impI)
  assume c: "critBlockHash crit \<noteq> None \<and> (FromBlock crit \<noteq> None \<or> ToBlock crit \<noteq> None)"
  then show r: "newFilter now crit a = (Inl ValidationError, a)"
    by (simp add: newFilter_def validateCriteria_def)
  then show "issued (newFilter now crit a) = Some ([], a)" by simp
next
  assume "critBlockHash crit = None \<or> (FromBlock crit = None \<and> ToBlock crit = None)"
  then have v: "validateCriteria crit = Inr crit"
    by (auto simp: validateCriteria_def)
  then show n: "newFilter now crit a = NewFilter now crit a"
    by (simp add: newFilter_def)
  show "fst (newFilter now crit a) = Inr (nextFilterID a)"
    "filters (snd (newFilter now crit a)) (nextFilterID a)
        = Some \<lparr>filterTyp = LogsSubscription, fc = crit, deadline = NewTimer now (timeout a),
                 blockCursor = [], lastToHeight = 0\<rparr>"
    "nextFilterID (snd (newFilter now crit a)) = nextFilterID a + 1"
    by (simp_all add: n NewFilter_registers)
qed

text \<open>
  The two cases of \<^verbatim>\<open>TestFilterNew\<close> on a fresh registry: the request with a block hash
  and the block range from 1 to 2 is answered with the validation error and leaves the
  registry as it was, without any filter; the request of the happy path gets the ID 1,
  and the same request once more gets the ID 2.
\<close>

theorem newFilter_rejects_hash_and_range_witness:
  "newFilter 0 hashAndRangeCriteria (NewFilterAPI 10) = (Inl ValidationError, NewFilterAPI 10)
   \<and> filters (snd (newFilter 0 hashAndRangeCriteria (NewFilterAPI 10))) = Map.empty
   \<and> nextFilterID (snd (newFilter 0 hashAndRangeCriteria (NewFilterAPI 10))) = 1
   \<and> fst (newFilter 0 happyPathCriteria (NewFilterAPI 10)) = Inr 1
   \<and> fst (newFilter 1 happyPathCriteria (snd (newFilter 0 happyPathCriteria (NewFilterAPI 10))))
       = Inr 2"
proof -
  have h: "critBlockHash hashAndRangeCriteria \<noteq> None
           \<and> (FromBlock hashAndRangeCriteria \<noteq> None \<or> ToBlock hashAndRangeCriteria \<noteq> None)"
    by (simp add: hashAndRangeCriteria_def)
  have p: "critBlockHash happyPathCriteria = None
           \<or> (FromBlock happyPathCriteria = None \<and> ToBlock happyPathCriteria = None)"
    by (simp add: happyPathCriteria_def)
  from newFilter_rejects_hash_and_range
         [where crit = hashAndRangeCriteria and now = 0 and a = "NewFilterAPI 10"] h
  have 1: "newFilter 0 hashAndRangeCriteria (NewFilterAPI 10)
             = (Inl ValidationError, NewFilterAPI 10)"
    by blast
  from newFilter_rejects_hash_and_range
         [where crit = happyPathCriteria and now = 0 and a = "NewFilterAPI 10"] p
  have 2: "fst (newFilter 0 happyPathCriteria (NewFilterAPI 10)) = Inr (nextFilterID (NewFilterAPI 10))"
    "nextFilterID (snd (newFilter 0 happyPathCriteria (NewFilterAPI 10)))
       = nextFilterID (NewFilterAPI 10) + 1"
    by blast+
  from newFilter_rejects_hash_and_range
         [where crit = happyPathCriteria and now = 1
            and a = "snd (newFilter 0 happyPathCriteria (NewFilterAPI 10))"] p
  have 3: "fst (newFilter 1 happyPathCriteria (snd (newFilter 0 happyPathCriteria (NewFilterAPI 10))))
             = Inr (nextFilterID (snd (newFilter 0 happyPathCriteria (NewFilterAPI 10))))"
    by blast
  have n: "nextFilterID (NewFilterAPI 10) = 1" "filters (NewFilterAPI 10) = Map.empty"
    by (simp_all add: NewFilterAPI_def)
  from 1 2 3 n show ?thesis
    by simp
qed

lemma GetFilterChanges_nextFilterID:
  "GetFilterChanges now env filterID a = Some (r, a') \<Longrightarrow> nextFilterID a' = nextFilterID a"
  by (auto simp: GetFilterChanges_def Let_def
      split: option.splits FilterType.splits sum.splits if_splits prod.splits)

lemma GetFilterLogs_nextFilterID:
  "GetFilterLogs now env filterID a = Some (r, a') \<Longrightarrow> nextFilterID a' = nextFilterID a"
  by (auto simp: GetFilterLogs_def Let_def split: option.splits sum.splits prod.splits)

lemma step_nextFilterID:
  assumes "step c a = Some (ids, a')"
  shows "(ids = [] \<and> nextFilterID a' = nextFilterID a)
         \<or> (ids = [nextFilterID a] \<and> nextFilterID a' = nextFilterID a + 1)"
proof -
  obtain now env k where c: "c = (now, env, k)" by (cases c)
  show ?thesis
  proof (cases k)
    case (CallNewFilter crit)
    with assms c show ?thesis by (auto simp: NewFilter_def Let_def)
  next
    case CallNewBlockFilter
    with assms c show ?thesis by (auto simp: NewBlockFilter_def Let_def)
  next
    case (CallGetFilterChanges i)
    with assms c show ?thesis
      by (auto split: option.splits dest: GetFilterChanges_nextFilterID)
  next
    case (CallGetFilterLogs i)
    with assms c show ?thesis
      by (auto split: option.splits dest: GetFilterLogs_nextFilterID)
  next
    case (CallUninstallFilter i)
    with assms c show ?thesis by (auto simp: UninstallFilter_def split: option.splits)
  next
    case CallTimeoutLoopRound
    with assms c show ?thesis by (auto simp: timeoutLoopRound_def)
  qed
qed

lemma run_ids:
  assumes "run cs a = Some (ids, a')"
  shows "ids = map (\<lambda>k. nextFilterID a + of_nat k) [0..<length ids]
         \<and> nextFilterID a' = nextFilterID a + of_nat (length ids)"
  using assms
proof (induction cs arbitrary: a ids)
  case Nil
  then show ?case by simp
next
  case (Cons c cs)
  from Cons.prems obtain ids1 a1 ids2 where
    s: "step c a = Some (ids1, a1)" and r: "run cs a1 = Some (ids2, a')" and
    i: "ids = ids1 @ ids2"
    by (auto split: option.splits)
  note ih = Cons.IH [OF r]
  from step_nextFilterID [OF s] show ?case
  proof
    assume "ids1 = [] \<and> nextFilterID a1 = nextFilterID a"
    with ih i show ?thesis by simp
  next
    assume h: "ids1 = [nextFilterID a] \<and> nextFilterID a1 = nextFilterID a + 1"
    have m: "map (\<lambda>k. nextFilterID a + of_nat k) [0..<Suc n]
             = nextFilterID a # map (\<lambda>k. nextFilterID a + 1 + of_nat k) [0..<n]" for n
      by (simp add: upt_conv_Cons map_Suc_upt [symmetric] add.assoc del: upt_Suc)
    from ih h have "ids2 = map (\<lambda>k. nextFilterID a + 1 + of_nat k) [0..<length ids2]"
      and "nextFilterID a' = nextFilterID a + 1 + of_nat (length ids2)" by simp_all
    with i h m [of "length ids2"] show ?thesis by (simp add: add.assoc)
  qed
qed

lemma run_creations:
  "\<exists>a'. run (replicate n (now, env, CallNewBlockFilter)) a
         = Some (map (\<lambda>k. nextFilterID a + of_nat k) [0..<n], a')"
proof (induction n arbitrary: a)
  case 0
  show ?case by simp
next
  case (Suc n)
  obtain a1 where s: "step (now, env, CallNewBlockFilter) a = Some ([nextFilterID a], a1)"
    and n1: "nextFilterID a1 = nextFilterID a + 1"
    by (simp add: NewBlockFilter_def Let_def)
  from Suc [of a1] obtain a' where
    r: "run (replicate n (now, env, CallNewBlockFilter)) a1
         = Some (map (\<lambda>k. nextFilterID a1 + of_nat k) [0..<n], a')" by blast
  have m: "map (\<lambda>k. nextFilterID a + of_nat k) [0..<Suc n]
             = nextFilterID a # map (\<lambda>k. nextFilterID a + 1 + of_nat k) [0..<n]"
    by (simp add: upt_conv_Cons map_Suc_upt [symmetric] add.assoc del: upt_Suc)
  show ?case
    using s r by (simp add: n1 m del: upt_Suc step.simps)
qed

lemma creations_summary:
  assumes "0 < n"
  shows "map_option (\<lambda>(ids, a'). (length ids, hd ids, last ids))
           (run (replicate n (now, env, CallNewBlockFilter)) a)
         = Some (n, nextFilterID a, nextFilterID a + of_nat (n - 1))"
proof -
  from run_creations [of n now env a] obtain a' where
    r: "run (replicate n (now, env, CallNewBlockFilter)) a
         = Some (map (\<lambda>k. nextFilterID a + of_nat k) [0..<n], a')" by blast
  have ne: "[0..<n] \<noteq> []" using assms by simp
  have h: "hd (map (\<lambda>k. nextFilterID a + of_nat k) [0..<n]) = nextFilterID a"
    using assms by (simp add: hd_map [OF ne])
  have l: "last (map (\<lambda>k. nextFilterID a + of_nat k) [0..<n]) = nextFilterID a + of_nat (n - 1)"
    using assms by (simp add: last_map [OF ne])
  show ?thesis unfolding r by (simp only: option.map prod.case h l length_map length_upt diff_zero)
qed

lemma issued_id_unat:
  assumes "k < n" "n < 2 ^ 64"
  shows "unat (1 + of_nat k :: 64 word) = Suc k"
proof -
  have "(1 + of_nat k :: 64 word) = of_nat (Suc k)" by simp
  moreover have "unat (of_nat (Suc k) :: 64 word) = Suc k mod 2 ^ 64"
    by (simp only: unat_of_nat len_bit0 len_num1 mult_1_right
        mult_numeral_left_semiring_numeral num.simps numeral_times_numeral mult_num_simps)
  moreover have "Suc k mod 2 ^ 64 = Suc k"
    using assms by (intro mod_less) simp
  ultimately show ?thesis by (simp only:)
qed

text \<open>
  C8 (as amended). Take any sequence of calls on a registry made by \<open>NewFilterAPI\<close>:
  creations, queries, uninstalls and rounds of the timeout loop, all of which return. As
  long as fewer than \<open>2^64\<close> IDs have been handed out, the IDs handed out are 1, 2, 3, ...
  in this order: each is greater than all before it, they are pairwise distinct, and none
  is 0, whatever was uninstalled or expired in between.
\<close>

theorem issued_ids_increasing:
  assumes "run cs (NewFilterAPI d) = Some (ids, a')"
      and "length ids < 2 ^ 64"
  shows "ids = map of_nat [1..<Suc (length ids)]
         \<and> sorted_wrt (<) ids \<and> distinct ids \<and> 0 \<notin> set ids"
proof -
  let ?n = "length ids"
  let ?f = "\<lambda>k. (1 + of_nat k :: 64 word)"
  from run_ids [OF assms(1)] have ids: "ids = map ?f [0..<?n]"
    by (simp add: NewFilterAPI_def)
  have nth: "ids ! k = ?f k" if "k < ?n" for k
    using that by (subst ids) simp
  have un: "unat (ids ! k) = Suc k" if "k < ?n" for k
    using that nth issued_id_unat [OF that assms(2)] by simp
  have "ids = map of_nat [1..<Suc ?n]"
  proof (rule nth_equalityI)
    show "length ids = length (map (of_nat :: nat \<Rightarrow> 64 word) [1..<Suc ?n])"
      by (simp del: upt_Suc)
  next
    fix k assume "k < length ids"
    then show "ids ! k = map of_nat [1..<Suc ?n] ! k"
      using nth [of k] by (simp del: upt_Suc)
  qed
  moreover have s: "sorted_wrt (<) ids"
    unfolding sorted_wrt_iff_nth_less
    by (auto simp: word_less_nat_alt un)
  moreover from s have "distinct ids"
    by (simp add: strict_sorted_iff)
  moreover have "0 \<notin> set ids"
  proof
    assume "0 \<in> set ids"
    then obtain k where "k < ?n" "ids ! k = 0" by (auto simp: in_set_conv_nth)
    with un [of k] show False by simp
  qed
  ultimately show ?thesis by blast
qed

text \<open>A filter and a block filter are created, the first is uninstalled and asked for,
  the second expires and is swept, and a third filter is created: the IDs are 1, 2, 3.\<close>

theorem issued_ids_increasing_witness:
  "map_option fst
     (run [(0, exampleEnv 1, CallNewFilter openCriteria),
           (1, exampleEnv 1, CallNewBlockFilter),
           (2, exampleEnv 1, CallUninstallFilter 1),
           (3, exampleEnv 1, CallGetFilterChanges 1),
           (50, exampleEnv 1, CallTimeoutLoopRound),
           (51, exampleEnv 1, CallNewFilter openCriteria)] (NewFilterAPI 10))
   = Some [1, 2, 3]
   \<and> length [1, 2, 3 :: uint64] < 2 ^ 64
   \<and> sorted_wrt (<) [1, 2, 3 :: uint64] \<and> distinct [1, 2, 3 :: uint64]
   \<and> 0 \<notin> set [1, 2, 3 :: uint64]"
proof -
  have r: "map_option fst
     (run [(0, exampleEnv 1, CallNewFilter openCriteria),
           (1, exampleEnv 1, CallNewBlockFilter),
           (2, exampleEnv 1, CallUninstallFilter 1),
           (3, exampleEnv 1, CallGetFilterChanges 1),
           (50, exampleEnv 1, CallTimeoutLoopRound),
           (51, exampleEnv 1, CallNewFilter openCriteria)] (NewFilterAPI 10))
   = Some [1, 2, 3]"
    by (simp add: NewFilter_def NewBlockFilter_def UninstallFilter_def GetFilterChanges_def
        timeoutLoopRound_def NewFilterAPI_def Let_def)
  then obtain a' where
    "run [(0, exampleEnv 1, CallNewFilter openCriteria),
           (1, exampleEnv 1, CallNewBlockFilter),
           (2, exampleEnv 1, CallUninstallFilter 1),
           (3, exampleEnv 1, CallGetFilterChanges 1),
           (50, exampleEnv 1, CallTimeoutLoopRound),
           (51, exampleEnv 1, CallNewFilter openCriteria)] (NewFilterAPI 10)
     = Some ([1, 2, 3], a')"
    by auto
  from issued_ids_increasing [OF this] r show ?thesis by simp
qed

text \<open>
  C8 as stated fails for a sequence of \<open>2^64\<close> creations: the counter is a \<^verbatim>\<open>uint64\<close>,
  so after the IDs 1, ..., \<open>2^64 - 1\<close> it is 0 again, and the last of \<open>2^64\<close> calls of
  \<open>NewBlockFilter\<close> on the initial registry returns the ID 0, which is not greater than
  the first ID, 1.
\<close>

theorem filter_id_wraps_counterexample:
  "map_option (\<lambda>(ids, a'). (length ids, hd ids, last ids))
     (run (replicate (2 ^ 64) (0, exampleEnv 0, CallNewBlockFilter)) (NewFilterAPI 10))
   = Some (2 ^ 64, 1, 0)"
proof -
  have w: "(1 + of_nat (2 ^ 64 - 1) :: 64 word) = 0"
  proof -
    have "(1 + of_nat (2 ^ 64 - 1) :: 64 word) = of_nat (Suc (2 ^ 64 - 1))"
      by (simp only: of_nat_Suc)
    also have "Suc (2 ^ 64 - 1) = (2 ^ 64 :: nat)" by simp
    also have "(of_nat (2 ^ 64) :: 64 word) = 0" by (simp add: word_of_nat_eq_0_iff)
    finally show ?thesis .
  qed
  have n1: "nextFilterID (NewFilterAPI 10) = 1" by (simp add: NewFilterAPI_def)
  have "(0 :: nat) < 2 ^ 64" by simp
  from creations_summary [OF this, of 0 "exampleEnv 0" "NewFilterAPI 10"]
  show ?thesis by (simp only: n1 w)
qed

section \<open>Queries on the example registry\<close>

lemma rearm_NewTimer: "rearm now d (NewTimer t d') = Some (NewTimer now d)"
  by (cases "t + d' \<le> now")
     (simp_all add: rearm_def Stop_def elapse_def recvC_def Reset_def NewTimer_def)

lemma openCriteria_sel:
  "critBlockHash openCriteria = None" "FromBlock openCriteria = None"
  "ToBlock openCriteria = None" "Addresses openCriteria = []" "critTopics openCriteria = []"
  by (simp_all add: openCriteria_def zeroCriteria_def)

lemma exampleState_sel:
  "filters (exampleState t c) 1
     = Some \<lparr>filterTyp = LogsSubscription, fc = openCriteria, deadline = NewTimer t 10,
             blockCursor = [], lastToHeight = c\<rparr>"
  "timeout (exampleState t c) = 10"
  "nextFilterID (exampleState t c) = 2"
  by (simp_all add: exampleState_def)

lemma exampleState_update:
  "(exampleState t c)\<lparr>filters := (filters (exampleState t c))(1 \<mapsto>
       \<lparr>filterTyp = LogsSubscription, fc = openCriteria, deadline = NewTimer t' 10,
        blockCursor = [], lastToHeight = c'\<rparr>)\<rparr> = exampleState t' c'"
  by (simp add: exampleState_def)

lemma exampleState_initial:
  "snd (NewFilter 0 openCriteria (NewFilterAPI 10)) = exampleState 0 0"
  by (simp add: NewFilter_def NewFilterAPI_def exampleState_def Let_def)

lemma example_GetFilterChanges:
  assumes "sint l < 2 ^ 63 - 1"
  shows "GetFilterChanges now (exampleEnv l) 1 (exampleState t c) =
         Some (Inr (LogChanges (map exampleDelivered
                      (map word_of_int [sint (if 0 <s c then c else 0)..sint l]))),
               exampleState now (l + 1))"
  by (simp add: GetFilterChanges_def exampleState_sel rearm_NewTimer openCriteria_sel
      example_GetLogsByFilters [OF assms] exampleState_update Let_def)

lemma example_GetFilterLogs:
  assumes "sint l < 2 ^ 63 - 1"
  shows "GetFilterLogs now (exampleEnv l) 1 (exampleState t c) =
         Some (Inr (map exampleDelivered (map word_of_int [0..sint l])), exampleState now l)"
  by (simp add: GetFilterLogs_def exampleState_sel rearm_NewTimer
      example_GetLogsByFilters [OF assms] exampleState_update Let_def)

lemma broken_GetLogsByFilters:
  "GetLogsByFilters (brokenBlocksEnv 3) openCriteria 2
     = Some (Inl (ErrCollaborator ''block unavailable''))"
  "GetLogsByFilters (brokenBlocksEnv 3) openCriteria 0
     = Some (Inl (ErrCollaborator ''block unavailable''))"
proof -
  have r: "scanRange (brokenBlocksEnv 3) openCriteria 2 = (2, 3)"
    "scanRange (brokenBlocksEnv 3) openCriteria 0 = (0, 3)"
    by (simp_all add: scanRange_def openCriteria_sel brokenBlocksEnv_sel word_sless_alt)
  have hs: "FindBlockesByBloom (brokenBlocksEnv 3) 2 3 [] = Some [2, 3]"
    "FindBlockesByBloom (brokenBlocksEnv 3) 0 3 [] = Some [0, 1, 2, 3]"
    by (simp_all add: FindBlockesByBloom_closed brokenBlocksEnv_sel upto_rec1)
  show "GetLogsByFilters (brokenBlocksEnv 3) openCriteria 2
     = Some (Inl (ErrCollaborator ''block unavailable''))"
    "GetLogsByFilters (brokenBlocksEnv 3) openCriteria 0
     = Some (Inl (ErrCollaborator ''block unavailable''))"
    by (simp_all add: GetLogsByFilters_def openCriteria_sel r hs brokenBlocksEnv_sel)
qed

lemma broken_GetFilterChanges:
  "GetFilterChanges now (brokenBlocksEnv 3) 1 (exampleState t 2)
     = Some (Inl (ErrCollaborator ''block unavailable''), exampleState now 2)"
  by (simp add: GetFilterChanges_def exampleState_sel rearm_NewTimer openCriteria_sel
      broken_GetLogsByFilters exampleState_update Let_def word_sless_alt)

lemma broken_GetFilterLogs:
  "GetFilterLogs now (brokenBlocksEnv 3) 1 (exampleState t 2)
     = Some (Inl (ErrCollaborator ''block unavailable''), exampleState now 2)"
  by (simp add: GetFilterLogs_def exampleState_sel rearm_NewTimer
      broken_GetLogsByFilters exampleState_update Let_def)

section \<open>What a query does to the filter it is made on\<close>

lemma GetFilterChanges_cases:
  assumes "filters a filterID = Some f"
      and "GetFilterChanges now env filterID a = Some (r, a')"
  shows "\<exists>t. rearm now (timeout a) (deadline f) = Some t \<and>
     ((a' = a\<lparr>filters := (filters a)(filterID \<mapsto> f\<lparr>deadline := t\<rparr>)\<rparr>
        \<and> ((r = Inr NilChanges \<and> filterTyp f = LogsSubscription
              \<and> ((critBlockHash (fc f) \<noteq> None \<and> 0 <s lastToHeight f)
                   \<or> (\<exists>n. ToBlock (fc f) = Some n \<and> Int64 n \<le>s lastToHeight f)))
             \<or> (\<exists>e. r = Inl e)))
      \<or> (\<exists>hashes cursor. filterTyp f = BlocksSubscription
            \<and> getBlockHeadersAfter env (blockCursor f) = Some (Inr (hashes, cursor))
            \<and> r = Inr (HashChanges hashes)
            \<and> a' = a\<lparr>filters := (filters a)(filterID \<mapsto>
                         f\<lparr>deadline := t, blockCursor := cursor\<rparr>)\<rparr>)
      \<or> (\<exists>logs E. filterTyp f = LogsSubscription
            \<and> (critBlockHash (fc f) = None \<or> \<not> 0 <s lastToHeight f)
            \<and> (\<forall>n. ToBlock (fc f) = Some n \<longrightarrow> \<not> Int64 n \<le>s lastToHeight f)
            \<and> GetLogsByFilters env (fc f) (lastToHeight f) = Some (Inr (logs, E))
            \<and> r = Inr (LogChanges logs)
            \<and> a' = a\<lparr>filters := (filters a)(filterID \<mapsto>
                         f\<lparr>deadline := t, lastToHeight := E + 1\<rparr>)\<rparr>))"
proof -
  from assms obtain t where t: "rearm now (timeout a) (deadline f) = Some t"
    by (auto simp: GetFilterChanges_def split: option.splits)
  show ?thesis
  proof (cases "filterTyp f")
    case UnknownSubscription
    with assms t show ?thesis by (auto simp: GetFilterChanges_def Let_def)
  next
    case BlocksSubscription
    with assms t show ?thesis
      by (auto simp: GetFilterChanges_def Let_def split: option.splits sum.splits)
  next
    case LogsSubscription
    with assms t show ?thesis
      by (auto simp: GetFilterChanges_def Let_def
          split: option.splits sum.splits if_splits)
  qed
qed

lemma GetFilterLogs_cases:
  assumes "filters a filterID = Some f"
      and "GetFilterLogs now env filterID a = Some (r, a')"
  shows "\<exists>t. rearm now (timeout a) (deadline f) = Some t \<and>
     ((\<exists>e. GetLogsByFilters env (fc f) 0 = Some (Inl e) \<and> r = Inl e
            \<and> a' = a\<lparr>filters := (filters a)(filterID \<mapsto> f\<lparr>deadline := t\<rparr>)\<rparr>)
      \<or> (\<exists>logs E. GetLogsByFilters env (fc f) 0 = Some (Inr (logs, E)) \<and> r = Inr logs
            \<and> a' = a\<lparr>filters := (filters a)(filterID \<mapsto>
                         f\<lparr>deadline := t, lastToHeight := E\<rparr>)\<rparr>))"
  using assms
  by (auto simp: GetFilterLogs_def Let_def split: option.splits sum.splits)

text \<open>
  C3 (as amended). \<open>GetFilterChanges\<close> and \<open>GetFilterLogs\<close> re-arm the timer of the filter
  they are called on before they fetch anything: whenever a call on an existing filter ID
  returns, with a result or with an error, the filter's timer is pending and set to fire at
  \<open>now + timeout\<close>. A call on an ID that is not in the registry returns the error
  "filter does not exist" and leaves the registry, and so every timer, as it was.
\<close>

theorem deadline_rearmed_on_every_return:
  "(\<forall>f r a'. filters a filterID = Some f \<longrightarrow>
        GetFilterChanges now env filterID a = Some (r, a') \<longrightarrow>
        (\<exists>f'. filters a' filterID = Some f' \<and> expiry (deadline f') = now + timeout a
              \<and> pending (deadline f')))
   \<and> (\<forall>f r a'. filters a filterID = Some f \<longrightarrow>
        GetFilterLogs now env filterID a = Some (r, a') \<longrightarrow>
        (\<exists>f'. filters a' filterID = Some f' \<and> expiry (deadline f') = now + timeout a
              \<and> pending (deadline f')))
   \<and> (filters a filterID = None \<longrightarrow>
        GetFilterChanges now env filterID a = Some (Inl ErrFilterDoesNotExist, a)
        \<and> GetFilterLogs now env filterID a = Some (Inl ErrFilterDoesNotExist, a))"
proof (intro conjI allI impI)
  fix f r a'
  assume f: "filters a filterID = Some f"
    and g: "GetFilterChanges now env filterID a = Some (r, a')"
  from GetFilterChanges_cases [OF f g] obtain t where
    t: "rearm now (timeout a) (deadline f) = Some t" and
    a': "\<exists>f'. filters a' filterID = Some f' \<and> deadline f' = t"
    by auto
  with rearm_Some [OF t]
  show "\<exists>f'. filters a' filterID = Some f' \<and> expiry (deadline f') = now + timeout a
              \<and> pending (deadline f')" by auto
next
  fix f r a'
  assume f: "filters a filterID = Some f"
    and g: "GetFilterLogs now env filterID a = Some (r, a')"
  from GetFilterLogs_cases [OF f g] obtain t where
    t: "rearm now (timeout a) (deadline f) = Some t" and
    a': "\<exists>f'. filters a' filterID = Some f' \<and> deadline f' = t"
    by auto
  with rearm_Some [OF t]
  show "\<exists>f'. filters a' filterID = Some f' \<and> expiry (deadline f') = now + timeout a
              \<and> pending (deadline f')" by auto
next
  assume "filters a filterID = None"
  then show "GetFilterChanges now env filterID a = Some (Inl ErrFilterDoesNotExist, a)"
    and "GetFilterLogs now env filterID a = Some (Inl ErrFilterDoesNotExist, a)"
    by (simp_all add: GetFilterChanges_def GetFilterLogs_def)
qed

text \<open>On the example registry, whose filter was armed at 0 for the instant 10: a call at
  the instant 5 that fails, and one that succeeds, both leave the timer set for 15; a call
  on the unknown ID 9 changes nothing.\<close>

theorem deadline_rearmed_on_every_return_witness:
  "map_option (expiry \<circ> deadline) (filters (exampleState 0 2) 1) = Some 10
   \<and> GetFilterChanges 5 (brokenBlocksEnv 3) 1 (exampleState 0 2)
       = Some (Inl (ErrCollaborator ''block unavailable''), exampleState 5 2)
   \<and> map_option fst (GetFilterLogs 5 (exampleEnv 3) 1 (exampleState 0 2))
       = Some (Inr [exampleDelivered 0, exampleDelivered 1, exampleDelivered 2,
                    exampleDelivered 3])
   \<and> map_option (expiry \<circ> deadline) (filters (exampleState 5 2) 1) = Some 15
   \<and> map_option (pending \<circ> deadline) (filters (exampleState 5 2) 1) = Some True
   \<and> GetFilterLogs 5 (exampleEnv 3) 9 (exampleState 0 2)
       = Some (Inl ErrFilterDoesNotExist, exampleState 0 2)"
proof -
  note T = deadline_rearmed_on_every_return [of "exampleState 0 2" _ 5]
  have b: "GetFilterChanges 5 (brokenBlocksEnv 3) 1 (exampleState 0 2)
       = Some (Inl (ErrCollaborator ''block unavailable''), exampleState 5 2)"
    by (rule broken_GetFilterChanges)
  from T [of 1 "brokenBlocksEnv 3"] b
  have e: "map_option (expiry \<circ> deadline) (filters (exampleState 5 2) 1) = Some 15"
    and p: "map_option (pending \<circ> deadline) (filters (exampleState 5 2) 1) = Some True"
    by (auto simp: exampleState_sel)
  have n: "filters (exampleState 0 2) 9 = None" by (simp add: exampleState_def)
  from T [of 9 "exampleEnv 3"] n
  have u: "GetFilterLogs 5 (exampleEnv 3) 9 (exampleState 0 2)
       = Some (Inl ErrFilterDoesNotExist, exampleState 0 2)" by blast
  have l: "map_option fst (GetFilterLogs 5 (exampleEnv 3) 1 (exampleState 0 2))
       = Some (Inr [exampleDelivered 0, exampleDelivered 1, exampleDelivered 2,
                    exampleDelivered 3])"
    by (simp add: example_GetFilterLogs upto_rec1)
  have i: "map_option (expiry \<circ> deadline) (filters (exampleState 0 2) 1) = Some 10"
    by (simp add: exampleState_sel NewTimer_def)
  from i b l e p u show ?thesis by blast
qed

text \<open>
  C3 as stated fails: the filter of the example registry is set to expire at 10; a
  \<open>GetFilterLogs\<close> call and a \<open>GetFilterChanges\<close> call at the instant 5 whose block fetch
  fails return the error, and the filter is then set to expire at 15.
\<close>

theorem deadline_reset_on_error_counterexample:
  "map_option (expiry \<circ> deadline) (filters (exampleState 0 2) 1) = Some 10
   \<and> map_option (\<lambda>(r, a'). (r, map_option (expiry \<circ> deadline) (filters a' 1)))
        (GetFilterLogs 5 (brokenBlocksEnv 3) 1 (exampleState 0 2))
       = Some (Inl (ErrCollaborator ''block unavailable''), Some 15)
   \<and> map_option (\<lambda>(r, a'). (r, map_option (expiry \<circ> deadline) (filters a' 1)))
        (GetFilterChanges 5 (brokenBlocksEnv 3) 1 (exampleState 0 2))
       = Some (Inl (ErrCollaborator ''block unavailable''), Some 15)"
  by (simp add: broken_GetFilterChanges broken_GetFilterLogs exampleState_sel NewTimer_def)

text \<open>
  C6. When \<open>GetFilterChanges\<close> or \<open>GetFilterLogs\<close> on an existing filter returns an error,
  the entry of that filter is the old one but for its timer: type, criteria,
  \<open>lastToHeight\<close> and \<open>blockCursor\<close> are what they were, the other entries and the counter
  are untouched. A retry therefore scans from the same cursor.
\<close>

theorem cursor_kept_on_error:
  "(\<forall>f e a'. filters a filterID = Some f \<longrightarrow>
        GetFilterChanges now env filterID a = Some (Inl e, a') \<longrightarrow>
        (\<exists>t. a' = a\<lparr>filters := (filters a)(filterID \<mapsto> f\<lparr>deadline := t\<rparr>)\<rparr>)
        \<and> map_option lastToHeight (filters a' filterID) = Some (lastToHeight f)
        \<and> map_option blockCursor (filters a' filterID) = Some (blockCursor f))
   \<and> (\<forall>f e a'. filters a filterID = Some f \<longrightarrow>
        GetFilterLogs now env filterID a = Some (Inl e, a') \<longrightarrow>
        (\<exists>t. a' = a\<lparr>filters := (filters a)(filterID \<mapsto> f\<lparr>deadline := t\<rparr>)\<rparr>)
        \<and> map_option lastToHeight (filters a' filterID) = Some (lastToHeight f)
        \<and> map_option blockCursor (filters a' filterID) = Some (blockCursor f))"
proof (intro conjI allI impI)
  fix f e a'
  assume f: "filters a filterID = Some f"
    and g: "GetFilterChanges now env filterID a = Some (Inl e, a')"
  from GetFilterChanges_cases [OF f g]
  show "\<exists>t. a' = a\<lparr>filters := (filters a)(filterID \<mapsto> f\<lparr>deadline := t\<rparr>)\<rparr>" by auto
  then show "map_option lastToHeight (filters a' filterID) = Some (lastToHeight f)"
    and "map_option blockCursor (filters a' filterID) = Some (blockCursor f)" by auto
next
  fix f e a'
  assume f: "filters a filterID = Some f"
    and g: "GetFilterLogs now env filterID a = Some (Inl e, a')"
  from GetFilterLogs_cases [OF f g]
  show "\<exists>t. a' = a\<lparr>filters := (filters a)(filterID \<mapsto> f\<lparr>deadline := t\<rparr>)\<rparr>" by auto
  then show "map_option lastToHeight (filters a' filterID) = Some (lastToHeight f)"
    and "map_option blockCursor (filters a' filterID) = Some (blockCursor f)" by auto
qed

lemma broken_stream_GetFilterChanges:
  "GetFilterChanges now brokenStreamEnv 1 (exampleBlockState t cursor)
     = Some (Inl (ErrCollaborator ''stream closed''), exampleBlockState now cursor)"
proof -
  have g: "getBlockHeadersAfter brokenStreamEnv cursor = Some (Inl (ErrCollaborator ''stream closed''))"
    unfolding getBlockHeadersAfter_def
    by (subst getBlockHeadersAfterLoop.simps) (simp add: brokenStreamEnv_def)
  show ?thesis
    by (simp add: GetFilterChanges_def exampleBlockState_def rearm_NewTimer g Let_def)
qed

text \<open>On the example registries: a logs filter with cursor 2 whose block fetch fails keeps
  the cursor 2, under both calls; a block filter with cursor \<open>''c7''\<close> whose event stream
  fails keeps that cursor.\<close>

theorem cursor_kept_on_error_witness:
  "GetFilterChanges 5 (brokenBlocksEnv 3) 1 (exampleState 0 2)
     = Some (Inl (ErrCollaborator ''block unavailable''), exampleState 5 2)
   \<and> GetFilterLogs 5 (brokenBlocksEnv 3) 1 (exampleState 0 2)
     = Some (Inl (ErrCollaborator ''block unavailable''), exampleState 5 2)
   \<and> map_option lastToHeight (filters (exampleState 5 2) 1) = Some 2
   \<and> GetFilterChanges 5 brokenStreamEnv 1 (exampleBlockState 0 ''c7'')
     = Some (Inl (ErrCollaborator ''stream closed''), exampleBlockState 5 ''c7'')
   \<and> map_option blockCursor (filters (exampleBlockState 5 ''c7'') 1) = Some ''c7''"
proof -
  have c: "GetFilterChanges 5 (brokenBlocksEnv 3) 1 (exampleState 0 2)
     = Some (Inl (ErrCollaborator ''block unavailable''), exampleState 5 2)"
    by (rule broken_GetFilterChanges)
  have l: "GetFilterLogs 5 (brokenBlocksEnv 3) 1 (exampleState 0 2)
     = Some (Inl (ErrCollaborator ''block unavailable''), exampleState 5 2)"
    by (rule broken_GetFilterLogs)
  have b: "GetFilterChanges 5 brokenStreamEnv 1 (exampleBlockState 0 ''c7'')
     = Some (Inl (ErrCollaborator ''stream closed''), exampleBlockState 5 ''c7'')"
    by (rule broken_stream_GetFilterChanges)
  from cursor_kept_on_error [of "exampleState 0 2" 1 5 "brokenBlocksEnv 3"] l
  have "map_option lastToHeight (filters (exampleState 5 2) 1) = Some 2"
    by (auto simp: exampleState_sel)
  moreover
  from cursor_kept_on_error [of "exampleBlockState 0 ''c7''" 1 5 brokenStreamEnv] b
  have "map_option blockCursor (filters (exampleBlockState 5 ''c7'') 1) = Some ''c7''"
    by (auto simp: exampleBlockState_def)
  ultimately show ?thesis using c l b by blast
qed

section \<open>The cursor of a logs filter\<close>

lemma range_scan_end_below_max:
  assumes "critBlockHash crit = None"
      and "GetLogsByFilters env crit lastTo = Some (Inr (logs, E))"
  shows "sint E < 2 ^ 63 - 1" and "sint (E + 1) = sint E + 1"
proof -
  from GetLogsByFilters_range_Inr(2) [OF assms] obtain hs where
    "FindBlockesByBloom env (fst (scanRange env crit lastTo)) E
       (EncodeFilters env (Addresses crit) (critTopics crit)) = Some hs" by blast
  then show "sint E < 2 ^ 63 - 1" by (rule FindBlockesByBloom_returns)
  then show "sint (E + 1) = sint E + 1" by (rule sint_succ64)
qed


text \<open>
  C2 (as amended). A successful \<open>GetFilterChanges\<close> call on a logs filter that is not
  answered without a scan (block hash with a cursor above 0, or \<open>ToBlock\<close> at or below the
  cursor) stores \<open>E + 1\<close>, where \<open>E\<close> is the end height that the scan of this call
  resolved; for a scan by block range \<open>E + 1\<close> does not wrap, so the cursor moves strictly
  forward whenever \<open>E\<close> is not below it. A successful \<open>GetFilterChanges\<close> call on a block
  filter, or one answered without a scan, leaves \<open>lastToHeight\<close> as it was. A successful
  \<open>GetFilterLogs\<close> call stores \<open>E\<close> itself. So when \<open>GetFilterChanges\<close> has scanned a block
  range and stored \<open>E1 + 1\<close>, a successful \<open>GetFilterLogs\<close> call after it that resolves
  \<open>E2\<close> stores \<open>E2\<close>: the cursor does not move back if \<open>E1 < E2\<close>, and it moves back by one
  if \<open>E2 = E1\<close>.
\<close>

theorem cursor_after_success:
  "(\<forall>f r a'. filters a filterID = Some f \<longrightarrow>
        GetFilterChanges now env filterID a = Some (Inr r, a') \<longrightarrow>
        (\<exists>f'. filters a' filterID = Some f'
           \<and> (filterTyp f = LogsSubscription
                \<and> \<not> ((critBlockHash (fc f) \<noteq> None \<and> 0 <s lastToHeight f)
                       \<or> (\<exists>n. ToBlock (fc f) = Some n \<and> Int64 n \<le>s lastToHeight f)) \<longrightarrow>
                (\<exists>logs E. GetLogsByFilters env (fc f) (lastToHeight f) = Some (Inr (logs, E))
                   \<and> r = LogChanges logs \<and> lastToHeight f' = E + 1
                   \<and> (critBlockHash (fc f) = None \<longrightarrow>
                         sint (lastToHeight f') = sint E + 1
                         \<and> (lastToHeight f \<le>s E \<longrightarrow> lastToHeight f <s lastToHeight f'))))
           \<and> (filterTyp f = LogsSubscription
                \<and> ((critBlockHash (fc f) \<noteq> None \<and> 0 <s lastToHeight f)
                     \<or> (\<exists>n. ToBlock (fc f) = Some n \<and> Int64 n \<le>s lastToHeight f)) \<longrightarrow>
                r = NilChanges \<and> lastToHeight f' = lastToHeight f)
           \<and> (filterTyp f \<noteq> LogsSubscription \<longrightarrow>
                filterTyp f = BlocksSubscription \<and> lastToHeight f' = lastToHeight f)))
   \<and> (\<forall>f logs a'. filters a filterID = Some f \<longrightarrow>
        GetFilterLogs now env filterID a = Some (Inr logs, a') \<longrightarrow>
        (\<exists>f' E. filters a' filterID = Some f'
           \<and> GetLogsByFilters env (fc f) 0 = Some (Inr (logs, E)) \<and> lastToHeight f' = E))
   \<and> (\<forall>f logs1 a1 now2 env2 logs2 a2.
        filters a filterID = Some f \<longrightarrow> critBlockHash (fc f) = None \<longrightarrow>
        GetFilterChanges now env filterID a = Some (Inr (LogChanges logs1), a1) \<longrightarrow>
        GetFilterLogs now2 env2 filterID a1 = Some (Inr logs2, a2) \<longrightarrow>
        (\<exists>E1 E2 f1 f2.
            GetLogsByFilters env (fc f) (lastToHeight f) = Some (Inr (logs1, E1))
          \<and> GetLogsByFilters env2 (fc f) 0 = Some (Inr (logs2, E2))
          \<and> filters a1 filterID = Some f1 \<and> lastToHeight f1 = E1 + 1
          \<and> sint (E1 + 1) = sint E1 + 1
          \<and> filters a2 filterID = Some f2 \<and> lastToHeight f2 = E2
          \<and> (E1 <s E2 \<longrightarrow> lastToHeight f1 \<le>s lastToHeight f2)
          \<and> (E2 = E1 \<longrightarrow> lastToHeight f2 <s lastToHeight f1
                          \<and> sint (lastToHeight f2) = sint (lastToHeight f1) - 1)))"
proof (intro conjI allI impI)
  fix f r a'
  assume f: "filters a filterID = Some f"
    and g: "GetFilterChanges now env filterID a = Some (Inr r, a')"
  let ?noScan = "(critBlockHash (fc f) \<noteq> None \<and> 0 <s lastToHeight f)
                   \<or> (\<exists>n. ToBlock (fc f) = Some n \<and> Int64 n \<le>s lastToHeight f)"
  from GetFilterChanges_cases [OF f g] obtain t where
    c: "(a' = a\<lparr>filters := (filters a)(filterID \<mapsto> f\<lparr>deadline := t\<rparr>)\<rparr>
          \<and> r = NilChanges \<and> filterTyp f = LogsSubscription \<and> ?noScan)
      \<or> (\<exists>hashes cursor. filterTyp f = BlocksSubscription
            \<and> a' = a\<lparr>filters := (filters a)(filterID \<mapsto>
                         f\<lparr>deadline := t, blockCursor := cursor\<rparr>)\<rparr>)
      \<or> (\<exists>logs E. filterTyp f = LogsSubscription \<and> \<not> ?noScan
            \<and> GetLogsByFilters env (fc f) (lastToHeight f) = Some (Inr (logs, E))
            \<and> r = LogChanges logs
            \<and> a' = a\<lparr>filters := (filters a)(filterID \<mapsto>
                         f\<lparr>deadline := t, lastToHeight := E + 1\<rparr>)\<rparr>)"
    by auto
  from c consider
      (nil) "a' = a\<lparr>filters := (filters a)(filterID \<mapsto> f\<lparr>deadline := t\<rparr>)\<rparr>"
        "r = NilChanges" "filterTyp f = LogsSubscription" "?noScan"
    | (blocks) cursor where "filterTyp f = BlocksSubscription"
        "a' = a\<lparr>filters := (filters a)(filterID \<mapsto>
                         f\<lparr>deadline := t, blockCursor := cursor\<rparr>)\<rparr>"
    | (scan) logs E where "filterTyp f = LogsSubscription" "\<not> ?noScan"
        "GetLogsByFilters env (fc f) (lastToHeight f) = Some (Inr (logs, E))"
        "r = LogChanges logs"
        "a' = a\<lparr>filters := (filters a)(filterID \<mapsto>
                         f\<lparr>deadline := t, lastToHeight := E + 1\<rparr>)\<rparr>"
    by blast
  then show "\<exists>f'. filters a' filterID = Some f'
           \<and> (filterTyp f = LogsSubscription \<and> \<not> ?noScan \<longrightarrow>
                (\<exists>logs E. GetLogsByFilters env (fc f) (lastToHeight f) = Some (Inr (logs, E))
                   \<and> r = LogChanges logs \<and> lastToHeight f' = E + 1
                   \<and> (critBlockHash (fc f) = None \<longrightarrow>
                         sint (lastToHeight f') = sint E + 1
                         \<and> (lastToHeight f \<le>s E \<longrightarrow> lastToHeight f <s lastToHeight f'))))
           \<and> (filterTyp f = LogsSubscription \<and> ?noScan \<longrightarrow>
                r = NilChanges \<and> lastToHeight f' = lastToHeight f)
           \<and> (filterTyp f \<noteq> LogsSubscription \<longrightarrow>
                filterTyp f = BlocksSubscription \<and> lastToHeight f' = lastToHeight f)"
  proof cases
    case nil
    then show ?thesis by simp
  next
    case blocks
    then show ?thesis by simp
  next
    case scan
    have "sint (E + 1) = sint E + 1 \<and> (lastToHeight f \<le>s E \<longrightarrow> lastToHeight f <s E + 1)"
      if "critBlockHash (fc f) = None"
      using range_scan_end_below_max(2) [OF that scan(3)]
      by (simp add: word_sle_eq word_sless_alt)
    with scan show ?thesis by simp
  qed
next
  fix f logs a'
  assume f: "filters a filterID = Some f"
    and g: "GetFilterLogs now env filterID a = Some (Inr logs, a')"
  from GetFilterLogs_cases [OF f g]
  show "\<exists>f' E. filters a' filterID = Some f'
           \<and> GetLogsByFilters env (fc f) 0 = Some (Inr (logs, E)) \<and> lastToHeight f' = E"
    by auto
next
  fix f logs1 a1 now2 env2 logs2 a2
  assume f: "filters a filterID = Some f" and n: "critBlockHash (fc f) = None"
    and g1: "GetFilterChanges now env filterID a = Some (Inr (LogChanges logs1), a1)"
    and g2: "GetFilterLogs now2 env2 filterID a1 = Some (Inr logs2, a2)"
  from GetFilterChanges_cases [OF f g1] obtain t E1 where
    s1: "GetLogsByFilters env (fc f) (lastToHeight f) = Some (Inr (logs1, E1))" and
    a1: "a1 = a\<lparr>filters := (filters a)(filterID \<mapsto> f\<lparr>deadline := t, lastToHeight := E1 + 1\<rparr>)\<rparr>"
    by auto
  define f1 where "f1 = f\<lparr>deadline := t, lastToHeight := E1 + 1\<rparr>"
  have f1: "filters a1 filterID = Some f1" "fc f1 = fc f" "lastToHeight f1 = E1 + 1"
    by (simp_all add: a1 f1_def)
  from GetFilterLogs_cases [OF f1(1) g2] obtain t2 E2 where
    s2: "GetLogsByFilters env2 (fc f) 0 = Some (Inr (logs2, E2))" and
    a2: "a2 = a1\<lparr>filters := (filters a1)(filterID \<mapsto> f1\<lparr>deadline := t2, lastToHeight := E2\<rparr>)\<rparr>"
    by (auto simp: f1(2))
  define f2 where "f2 = f1\<lparr>deadline := t2, lastToHeight := E2\<rparr>"
  have f2: "filters a2 filterID = Some f2" "lastToHeight f2 = E2"
    by (simp_all add: a2 f2_def)
  note w = range_scan_end_below_max(2) [OF n s1]
  have "E1 <s E2 \<longrightarrow> lastToHeight f1 \<le>s lastToHeight f2"
    using w by (simp add: f1(3) f2(2) word_sle_eq word_sless_alt)
  moreover have "E2 = E1 \<longrightarrow> lastToHeight f2 <s lastToHeight f1
                          \<and> sint (lastToHeight f2) = sint (lastToHeight f1) - 1"
    using w by (simp add: f1(3) f2(2) word_sless_alt)
  ultimately show "\<exists>E1 E2 f1 f2.
            GetLogsByFilters env (fc f) (lastToHeight f) = Some (Inr (logs1, E1))
          \<and> GetLogsByFilters env2 (fc f) 0 = Some (Inr (logs2, E2))
          \<and> filters a1 filterID = Some f1 \<and> lastToHeight f1 = E1 + 1
          \<and> sint (E1 + 1) = sint E1 + 1
          \<and> filters a2 filterID = Some f2 \<and> lastToHeight f2 = E2
          \<and> (E1 <s E2 \<longrightarrow> lastToHeight f1 \<le>s lastToHeight f2)
          \<and> (E2 = E1 \<longrightarrow> lastToHeight f2 <s lastToHeight f1
                          \<and> sint (lastToHeight f2) = sint (lastToHeight f1) - 1)"
    using s1 s2 f1(1,3) f2 w by blast
qed

text \<open>On the example registry, with the chain at height 1: \<open>GetFilterChanges\<close> from the
  cursor 0 scans the heights 0 and 1 and stores 2; \<open>GetFilterLogs\<close> scans them again and
  stores 1.\<close>

theorem cursor_after_success_witness:
  "GetFilterChanges 1 (exampleEnv 1) 1 (exampleState 0 0)
     = Some (Inr (LogChanges [exampleDelivered 0, exampleDelivered 1]), exampleState 1 2)
   \<and> GetLogsByFilters (exampleEnv 1) openCriteria 0
     = Some (Inr ([exampleDelivered 0, exampleDelivered 1], 1))
   \<and> map_option lastToHeight (filters (exampleState 1 2) 1) = Some (1 + 1)
   \<and> sint (1 + 1 :: int64) = sint (1 :: int64) + 1
   \<and> GetFilterLogs 2 (exampleEnv 1) 1 (exampleState 1 2)
     = Some (Inr [exampleDelivered 0, exampleDelivered 1], exampleState 2 1)
   \<and> map_option lastToHeight (filters (exampleState 2 1) 1) = Some 1"
proof -
  have c: "GetFilterChanges 1 (exampleEnv 1) 1 (exampleState 0 0)
     = Some (Inr (LogChanges [exampleDelivered 0, exampleDelivered 1]), exampleState 1 2)"
    by (simp add: example_GetFilterChanges upto_rec1)
  have s: "GetLogsByFilters (exampleEnv 1) openCriteria 0
     = Some (Inr ([exampleDelivered 0, exampleDelivered 1], 1))"
    by (simp add: example_GetLogsByFilters upto_rec1)
  have l: "GetFilterLogs 2 (exampleEnv 1) 1 (exampleState 1 2)
     = Some (Inr [exampleDelivered 0, exampleDelivered 1], exampleState 2 1)"
    by (simp add: example_GetFilterLogs upto_rec1)
  from cursor_after_success [of "exampleState 1 2" 1 2 "exampleEnv 1"] l s
  have "map_option lastToHeight (filters (exampleState 2 1) 1) = Some 1"
    by (auto simp: exampleState_sel)
  moreover have "map_option lastToHeight (filters (exampleState 1 2) 1) = Some (1 + 1)"
    by (simp add: exampleState_sel)
  moreover have "sint (1 + 1 :: int64) = sint (1 :: int64) + 1" by simp
  ultimately show ?thesis using c s l by blast
qed

text \<open>
  C2 as stated fails: on the registry right after \<open>NewFilter\<close>, with the chain at height 1,
  a successful \<open>GetFilterChanges\<close> stores the cursor 2 and a successful \<open>GetFilterLogs\<close>
  after it stores the cursor 1, which is lower.
\<close>

theorem cursor_moves_back_counterexample:
  "snd (NewFilter 0 openCriteria (NewFilterAPI 10)) = exampleState 0 0
   \<and> GetFilterChanges 1 (exampleEnv 1) 1 (exampleState 0 0)
     = Some (Inr (LogChanges [exampleDelivered 0, exampleDelivered 1]), exampleState 1 2)
   \<and> GetFilterLogs 2 (exampleEnv 1) 1 (exampleState 1 2)
     = Some (Inr [exampleDelivered 0, exampleDelivered 1], exampleState 2 1)
   \<and> map_option lastToHeight (filters (exampleState 1 2) 1) = Some 2
   \<and> map_option lastToHeight (filters (exampleState 2 1) 1) = Some 1
   \<and> (1 :: int64) <s 2"
  by (simp add: exampleState_initial example_GetFilterChanges example_GetFilterLogs
      upto_rec1 exampleState_sel word_sless_alt)










section \<open>Timers of a registry that calls have made\<close>

text \<open>
  In every registry reached from \<open>NewFilterAPI\<close> by calls, the timer of each filter is
  pending and its channel is empty (a timer that has come to its instant is fired only
  when an operation looks at it). So the stop, drain, reset sequence of a query never
  blocks there.
\<close>

lemma step_timers:
  assumes inv: "\<forall>i f. filters a i = Some f \<longrightarrow> pending (deadline f) \<and> \<not> C (deadline f)"
      and s: "step c a = Some (ids, a')"
  shows "\<forall>i f. filters a' i = Some f \<longrightarrow> pending (deadline f) \<and> \<not> C (deadline f)"
proof -
  obtain now env k where c: "c = (now, env, k)" by (cases c)
  have rearmed: "pending t \<and> \<not> C t"
    if "filters a i = Some f" "rearm now (timeout a) (deadline f) = Some t" for i f t
    using rearm_pending [of "deadline f" now "timeout a"] inv that by auto
  show ?thesis
  proof (cases k)
    case (CallNewFilter crit)
    with s c inv show ?thesis by (auto simp: NewFilter_def Let_def NewTimer_def split: if_splits)
  next
    case CallNewBlockFilter
    with s c inv show ?thesis by (auto simp: NewBlockFilter_def Let_def NewTimer_def split: if_splits)
  next
    case (CallGetFilterChanges i)
    with s c obtain r where g: "GetFilterChanges now env i a = Some (r, a')"
      by (auto split: option.splits)
    show ?thesis
    proof (cases "filters a i")
      case None
      with g inv show ?thesis by (simp add: GetFilterChanges_def)
    next
      case (Some f)
      from GetFilterChanges_cases [OF Some g] rearmed [OF Some] inv show ?thesis
        by (auto split: if_splits)
    qed
  next
    case (CallGetFilterLogs i)
    with s c obtain r where g: "GetFilterLogs now env i a = Some (r, a')"
      by (auto split: option.splits)
    show ?thesis
    proof (cases "filters a i")
      case None
      with g inv show ?thesis by (simp add: GetFilterLogs_def)
    next
      case (Some f)
      from GetFilterLogs_cases [OF Some g] rearmed [OF Some] inv show ?thesis
        by (auto split: if_splits)
    qed
  next
    case (CallUninstallFilter i)
    with s c inv show ?thesis
      by (auto simp: UninstallFilter_def split: option.splits if_splits)
  next
    case CallTimeoutLoopRound
    with s c inv show ?thesis
      by (auto simp: timeoutLoopRound_def split: option.splits if_splits)
  qed
qed

lemma run_timers:
  assumes "\<forall>i f. filters a i = Some f \<longrightarrow> pending (deadline f) \<and> \<not> C (deadline f)"
      and "run cs a = Some (ids, a')"
  shows "\<forall>i f. filters a' i = Some f \<longrightarrow> pending (deadline f) \<and> \<not> C (deadline f)"
  using assms
proof (induction cs arbitrary: a ids)
  case Nil
  then show ?case by simp
next
  case (Cons c cs)
  from Cons.prems(2) obtain ids1 a1 ids2 where
    s: "step c a = Some (ids1, a1)" and r: "run cs a1 = Some (ids2, a')"
    by (auto split: option.splits)
  from Cons.IH [OF step_timers [OF Cons.prems(1) s] r] show ?case .
qed

lemma reachable_timers_pending:
  assumes "run cs (NewFilterAPI d) = Some (ids, a)" "filters a i = Some f"
  shows "pending (deadline f)" and "\<not> C (deadline f)"
  using run_timers [OF _ assms(1)] assms(2) by (auto simp: NewFilterAPI_def)

end
